theory Spec2Isabelle
  imports Complex_Main "HOL-Library.Word"
begin

section \<open>Label placement in \<open>OrganSvg.tsx\<close>\<close>

text \<open>
  \<open>src/src/components/OrganSvg.tsx\<close> holds two versions of the component
  \<open>OrganMarkersContainer\<close>, one after the other:
  \<^item> the \<^emph>\<open>curved\<close> version (lines 165--343, connector at 372--386), whose memo
    \<open>adjustedPositions\<close> runs \<open>resolveSide\<close> for each side and a final loop that moves
    a label away from its own marker;
  \<^item> the \<^emph>\<open>grid\<close> version (lines 673--770, connector at 795--797), whose memo
    \<open>gridPositions\<close> runs \<open>adjustSide\<close> for each side.

  JavaScript numbers are modelled as exact rationals: every operation of the two solvers
  is \<open>+\<close>, \<open>-\<close>, \<open>*\<close>, \<open>/\<close>, \<open>min\<close>, \<open>max\<close>, \<open>abs\<close>, \<open>ceil\<close> or a comparison, and the
  rounding of IEEE doubles is abstracted away. A JavaScript string is the list of its
  UTF-16 code units, which is what \<open>length\<close> counts.
\<close>

type_synonym jsstring = "16 word list"

text \<open>The keys of \<open>ORGAN_CLIP_IDS\<close>; \<open>Object.keys\<close> lists them in insertion order.\<close>

datatype OrganKey = brain | heart | lungs | liver | stomach | kidney | intestine | pancreas

definition organKeys :: "OrganKey list" where
  "organKeys = [brain, heart, lungs, liver, stomach, kidney, intestine, pancreas]"

text \<open>A marker position \<open>{ left: number; top: number }\<close>, in percent of the canvas.\<close>

record position =
  p_left :: rat
  p_top :: rat

subsection \<open>Grid version: \<open>gridPositions\<close> and \<open>adjustSide\<close>\<close>

text \<open>The constants of \<open>GRID_CONFIG\<close> and \<open>LABEL_LAYOUT\<close> that the memo reads.\<close>

definition leftNameColumnX :: rat where "leftNameColumnX = 73"
definition rightNameColumnX :: rat where "rightNameColumnX = 27"

definition minVerticalGap :: rat where "minVerticalGap = 4"
definition cardHeight :: rat where "cardHeight = 7"
definition topPadding :: rat where "topPadding = 3"
definition bottomPadding :: rat where "bottomPadding = 3"

definition halfHeight :: rat where "halfHeight = cardHeight / 2"
definition minCenter :: rat where "minCenter = topPadding + halfHeight"
definition maxCenter :: rat where "maxCenter = 100 - bottomPadding - halfHeight"
definition spacing :: rat where "spacing = cardHeight + minVerticalGap"

definition clampCenter :: "rat \<Rightarrow> rat" where
  "clampCenter v = min (max v minCenter) maxCenter"

text \<open>An element of \<open>highlighted\<close>: \<open>{ organKey, position }\<close>.\<close>

record gridItem =
  g_organKey :: OrganKey
  g_position :: position

text \<open>An element of the memo's result: \<open>{ organKey, organPosition, isRightSide, columnX, rowY }\<close>.\<close>

record assignment =
  a_organKey :: OrganKey
  organPosition :: position
  a_isRightSide :: bool
  columnX :: rat
  rowY :: rat

text \<open>
  The \<open>forEach\<close> of lines 704--708. The argument \<open>centers\<close> is the array built so far, so
  the running \<open>index\<close> is its length and \<open>centers[index - 1]\<close> its last element.
\<close>

fun placeCenters :: "rat list \<Rightarrow> gridItem list \<Rightarrow> rat list" where
  "placeCenters centers [] = centers"
| "placeCenters centers (item # rest) =
     (let index = length centers;
          preferred = clampCenter (p_top (g_position item));
          minAllowed = (if index = 0 then minCenter else centers ! (index - 1) + spacing)
      in placeCenters (centers @ [max preferred minAllowed]) rest)"

text \<open>
  The \<open>for\<close> loop of lines 712--719. The first argument is \<open>i + 1\<close>, so that \<open>0\<close> stands
  for the exit \<open>i < 0\<close>; the loop also stops as soon as \<open>overflow > 0\<close> fails.
\<close>

fun pullUp :: "nat \<Rightarrow> rat \<Rightarrow> rat list \<Rightarrow> rat list" where
  "pullUp 0 overflow centers = centers"
| "pullUp (Suc i) overflow centers =
     (if overflow > 0 then
        (let prevBound = (if i = 0 then minCenter else centers ! (i - 1) + spacing);
             availableShift = centers ! i - prevBound
         in if availableShift \<le> 0 then pullUp i overflow centers
            else (let shift = min availableShift overflow
                  in pullUp i (overflow - shift) (centers[i := centers ! i - shift])))
      else centers)"

definition sortByTop :: "gridItem list \<Rightarrow> gridItem list" where
  "sortByTop items = sort_key (\<lambda>a. p_top (g_position a)) items"

definition solveCenters :: "gridItem list \<Rightarrow> rat list" where
  "solveCenters sortedItems =
     (let centers = placeCenters [] sortedItems
      in if length centers > 0 \<and> centers ! (length centers - 1) > maxCenter
         then pullUp (length centers) (centers ! (length centers - 1) - maxCenter) centers
         else centers)"

definition adjustSide :: "gridItem list \<Rightarrow> rat \<Rightarrow> bool \<Rightarrow> assignment list" where
  "adjustSide items colX isRight =
     (let sortedItems = sortByTop items;
          centers = solveCenters sortedItems
      in map (\<lambda>(item, c).
            \<lparr> a_organKey = g_organKey item, organPosition = g_position item,
              a_isRightSide = isRight, columnX = colX, rowY = c \<rparr>)
           (zip sortedItems centers))"

text \<open>The optional prop \<open>columnPositions?: { left?: number; right?: number }\<close>.\<close>

record ColumnPositionOverrides =
  cp_left :: "rat option"
  cp_right :: "rat option"

definition leftColumnX :: "ColumnPositionOverrides option \<Rightarrow> rat" where
  "leftColumnX columnPositions =
     (case columnPositions of None \<Rightarrow> leftNameColumnX
      | Some cp \<Rightarrow> (case cp_left cp of None \<Rightarrow> leftNameColumnX | Some x \<Rightarrow> x))"

definition rightColumnX :: "ColumnPositionOverrides option \<Rightarrow> rat" where
  "rightColumnX columnPositions =
     (case columnPositions of None \<Rightarrow> rightNameColumnX
      | Some cp \<Rightarrow> (case cp_right cp of None \<Rightarrow> rightNameColumnX | Some x \<Rightarrow> x))"

text \<open>
  Lines 682--691: the highlighted keys, each paired with its marker position, and the
  pairs without a position filtered out.
\<close>

definition highlightedItems ::
  "(OrganKey \<Rightarrow> bool) \<Rightarrow> (OrganKey \<rightharpoonup> position) \<Rightarrow> OrganKey list \<Rightarrow> gridItem list" where
  "highlightedItems isOrganHighlighted markerPositions keys =
     concat (map (\<lambda>organKey. case markerPositions organKey of
                      None \<Rightarrow> []
                    | Some pos \<Rightarrow> [\<lparr> g_organKey = organKey, g_position = pos \<rparr>])
                 (filter isOrganHighlighted keys))"

definition gridPositions ::
  "(OrganKey \<Rightarrow> bool) \<Rightarrow> (OrganKey \<rightharpoonup> position) \<Rightarrow> ColumnPositionOverrides option
     \<Rightarrow> assignment list" where
  "gridPositions isOrganHighlighted markerPositions columnPositions =
     (let highlighted = highlightedItems isOrganHighlighted markerPositions organKeys;
          leftAssignments =
            adjustSide (filter (\<lambda>item. p_left (g_position item) \<le> 50) highlighted)
              (leftColumnX columnPositions) False;
          rightAssignments =
            adjustSide (filter (\<lambda>item. p_left (g_position item) > 50) highlighted)
              (rightColumnX columnPositions) True
      in leftAssignments @ rightAssignments)"

subsection \<open>Curved version: \<open>adjustedPositions\<close> and \<open>resolveSide\<close>\<close>

definition LABEL_HEIGHT :: rat where "LABEL_HEIGHT = 6.5"
definition MIN_VERTICAL_SPACING :: rat where "MIN_VERTICAL_SPACING = 6"
definition MIN_BOUND :: rat where "MIN_BOUND = 8"
definition MAX_BOUND :: rat where "MAX_BOUND = 92"

definition clampCenterWithHeight :: "rat \<Rightarrow> rat \<Rightarrow> rat" where
  "clampCenterWithHeight center height =
     (let half = height / 2
      in if center - half < MIN_BOUND then MIN_BOUND + half
         else if center + half > MAX_BOUND then MAX_BOUND - half
         else center)"

text \<open>
  \<open>/\s+/g\<close> and \<open>trim\<close> use the same set of code units: ECMAScript's WhiteSpace and
  LineTerminator.
\<close>

definition isWhitespace :: "16 word \<Rightarrow> bool" where
  "isWhitespace c \<longleftrightarrow>
     c \<in> set [0x09, 0x0A, 0x0B, 0x0C, 0x0D, 0x20, 0xA0, 0x1680,
              0x2000, 0x2001, 0x2002, 0x2003, 0x2004, 0x2005, 0x2006, 0x2007,
              0x2008, 0x2009, 0x200A, 0x2028, 0x2029, 0x202F, 0x205F, 0x3000, 0xFEFF]"

text \<open>\<open>detail.replace(/\s+/g, ' ')\<close>: every maximal run of whitespace becomes one space.\<close>

function collapseWhitespace :: "jsstring \<Rightarrow> jsstring" where
  "collapseWhitespace [] = []"
| "collapseWhitespace (c # cs) =
     (if isWhitespace c then 0x20 # collapseWhitespace (dropWhile isWhitespace cs)
      else c # collapseWhitespace cs)"
  by pat_completeness auto
termination
  by (relation "measure length") (auto simp: less_Suc_eq_le length_dropWhile_le)

definition trim :: "jsstring \<Rightarrow> jsstring" where
  "trim s = rev (dropWhile isWhitespace (rev (dropWhile isWhitespace s)))"

definition estimateLabelHeight :: "jsstring option \<Rightarrow> rat" where
  "estimateLabelHeight detail =
     (case detail of
        None \<Rightarrow> LABEL_HEIGHT
      | Some d \<Rightarrow>
          if d = [] then LABEL_HEIGHT
          else (let clean = trim (collapseWhitespace d)
                in if clean = [] then LABEL_HEIGHT
                   else (let approxLines = \<lceil>rat_of_nat (length clean) / 34\<rceil>
                         in LABEL_HEIGHT + rat_of_int approxLines * 3.2)))"

text \<open>
  \<open>organDetails[organKey] || organDetails[ORGAN_LABELS[organKey].toLowerCase()]\<close>: the
  second lookup is taken when the first is missing or the empty string. The labels are
  ASCII, so \<open>toLowerCase\<close> only has to move \<open>A\<close>--\<open>Z\<close>.
\<close>

fun keyName :: "OrganKey \<Rightarrow> string" where
  "keyName brain = ''brain''"
| "keyName heart = ''heart''"
| "keyName lungs = ''lungs''"
| "keyName liver = ''liver''"
| "keyName stomach = ''stomach''"
| "keyName kidney = ''kidney''"
| "keyName intestine = ''intestine''"
| "keyName pancreas = ''pancreas''"

fun ORGAN_LABELS :: "OrganKey \<Rightarrow> string" where
  "ORGAN_LABELS brain = ''Brain''"
| "ORGAN_LABELS heart = ''Heart''"
| "ORGAN_LABELS lungs = ''Lungs''"
| "ORGAN_LABELS liver = ''Liver''"
| "ORGAN_LABELS stomach = ''Stomach''"
| "ORGAN_LABELS kidney = ''Kidneys''"
| "ORGAN_LABELS intestine = ''Intestines''"
| "ORGAN_LABELS pancreas = ''Pancreas''"

definition toLowerCase :: "string \<Rightarrow> string" where
  "toLowerCase s =
     map (\<lambda>c. let n = (of_char c :: nat) in if 65 \<le> n \<and> n \<le> 90 then char_of (n + 32) else c) s"

definition getOrganDetail :: "(string \<rightharpoonup> jsstring) \<Rightarrow> OrganKey \<Rightarrow> jsstring option" where
  "getOrganDetail organDetails organKey =
     (case organDetails (keyName organKey) of
        Some d \<Rightarrow> if d \<noteq> [] then Some d
                  else organDetails (toLowerCase (ORGAN_LABELS organKey))
      | None \<Rightarrow> organDetails (toLowerCase (ORGAN_LABELS organKey)))"

text \<open>
  An element of \<open>positions\<close>. \<open>adjustedPosition\<close> has the fields of a position and the
  label's anchor \<open>labelX\<close>, \<open>labelY\<close>.
\<close>

record adjusted = position +
  labelX :: rat
  labelY :: rat

record entry =
  organKey :: OrganKey
  originalPosition :: position
  adjustedPosition :: adjusted
  isRightSide :: bool
  labelHeight :: rat

abbreviation origTop :: "entry \<Rightarrow> rat" where
  "origTop e \<equiv> p_top (originalPosition e)"

abbreviation centerY :: "entry \<Rightarrow> rat" where
  "centerY e \<equiv> labelY (adjustedPosition e)"

text \<open>The assignment \<open>entry.adjustedPosition.labelY = v\<close>.\<close>

definition setLabelY :: "entry \<Rightarrow> rat \<Rightarrow> entry" where
  "setLabelY e v = e\<lparr> adjustedPosition := (adjustedPosition e)\<lparr> labelY := v \<rparr> \<rparr>"

text \<open>The body of the \<open>forEach\<close> of lines 204--229 for one key: nothing or one entry.\<close>

definition entryFor ::
  "(OrganKey \<Rightarrow> bool) \<Rightarrow> (string \<rightharpoonup> jsstring) \<Rightarrow> (OrganKey \<rightharpoonup> position) \<Rightarrow> OrganKey
     \<Rightarrow> entry list" where
  "entryFor isOrganHighlighted organDetails markerPositions k =
     (if \<not> isOrganHighlighted k then []
      else case markerPositions k of
        None \<Rightarrow> []
      | Some pos \<Rightarrow>
          (let organCenterX = p_left pos;
               organCenterY = p_top pos;
               isRight = organCenterX > 55;
               labelOffsetX = 36;
               lx = (if isRight then organCenterX - labelOffsetX else organCenterX + labelOffsetX);
               organDetail = getOrganDetail organDetails k;
               dynamicLabelHeight = estimateLabelHeight organDetail
           in [\<lparr> organKey = k,
                 originalPosition = pos,
                 adjustedPosition =
                   \<lparr> p_left = organCenterX, p_top = organCenterY, labelX = lx,
                     labelY = clampCenterWithHeight organCenterY dynamicLabelHeight \<rparr>,
                 isRightSide = isRight,
                 labelHeight = dynamicLabelHeight \<rparr>]))"

definition initialPositions ::
  "(OrganKey \<Rightarrow> bool) \<Rightarrow> (string \<rightharpoonup> jsstring) \<Rightarrow> (OrganKey \<rightharpoonup> position) \<Rightarrow> OrganKey list
     \<Rightarrow> entry list" where
  "initialPositions isOrganHighlighted organDetails markerPositions keys =
     concat (map (entryFor isOrganHighlighted organDetails markerPositions) keys)"

text \<open>\<open>spacing\<close> of lines 238--249, for a non-empty \<open>sideEntries\<close>.\<close>

definition sideSpacing :: "entry list \<Rightarrow> rat" where
  "sideSpacing sideEntries =
     (let availableHeight = MAX_BOUND - MIN_BOUND;
          sumHeights = foldl (\<lambda>sum entry. sum + labelHeight entry) 0 sideEntries;
          totalHeight = sumHeights
            + rat_of_int (max 0 (int (length sideEntries) - 1)) * MIN_VERTICAL_SPACING
      in if totalHeight > availableHeight
         then max 1.5
                ((availableHeight - sumHeights)
                   / rat_of_int (max 1 (int (length sideEntries) - 1)))
         else MIN_VERTICAL_SPACING)"

text \<open>
  \<open>applyForwardSpacing\<close>: the loop \<open>i = 1 .. length - 1\<close> reads the already updated
  \<open>sideEntries[i - 1]\<close> and may move \<open>sideEntries[i]\<close> down; \<open>pushDown\<close> is its body.
\<close>

definition pushDown :: "rat \<Rightarrow> entry \<Rightarrow> entry \<Rightarrow> entry" where
  "pushDown gap prev current =
     (let prevBottom = centerY prev + labelHeight prev / 2;
          currentTop = centerY current - labelHeight current / 2
      in if currentTop - prevBottom < gap
         then (let needed = gap - (currentTop - prevBottom)
               in setLabelY current (centerY current + needed))
         else current)"

fun applyForwardSpacing :: "rat \<Rightarrow> entry list \<Rightarrow> entry list" where
  "applyForwardSpacing gap (prev # current # rest) =
     prev # applyForwardSpacing gap (pushDown gap prev current # rest)"
| "applyForwardSpacing gap es = es"

text \<open>
  \<open>applyBackwardSpacing\<close>: the loop \<open>i = length - 2 .. 0\<close> reads the already updated
  \<open>sideEntries[i + 1]\<close> and may move \<open>sideEntries[i]\<close> up, so the entries below
  \<open>current\<close> are processed first; \<open>pushUp\<close> is its body.
\<close>

definition pushUp :: "rat \<Rightarrow> entry \<Rightarrow> entry \<Rightarrow> entry" where
  "pushUp gap next current =
     (let nextTop = centerY next - labelHeight next / 2;
          currentBottom = centerY current + labelHeight current / 2
      in if nextTop - currentBottom < gap
         then (let needed = gap - (nextTop - currentBottom)
               in setLabelY current (centerY current - needed))
         else current)"

fun applyBackwardSpacing :: "rat \<Rightarrow> entry list \<Rightarrow> entry list" where
  "applyBackwardSpacing gap [] = []"
| "applyBackwardSpacing gap (current # rest) =
     (case applyBackwardSpacing gap rest of
        [] \<Rightarrow> [current]
      | next # below \<Rightarrow> pushUp gap next current # next # below)"

text \<open>Lines 251--253 and 303--305: each entry clamped with its own height.\<close>

definition clampInitial :: "entry list \<Rightarrow> entry list" where
  "clampInitial es =
     map (\<lambda>entry. setLabelY entry (clampCenterWithHeight (origTop entry) (labelHeight entry))) es"

definition clampFinal :: "entry list \<Rightarrow> entry list" where
  "clampFinal es =
     map (\<lambda>entry. setLabelY entry (clampCenterWithHeight (centerY entry) (labelHeight entry))) es"

definition shiftAll :: "rat \<Rightarrow> entry list \<Rightarrow> entry list" where
  "shiftAll d es = map (\<lambda>entry. setLabelY entry (centerY entry + d)) es"

text \<open>Lines 283--291, for a non-empty list.\<close>

definition overflowStep :: "rat \<Rightarrow> entry list \<Rightarrow> entry list" where
  "overflowStep gap es =
     (let lastEntry = last es;
          lastBottom = centerY lastEntry + labelHeight lastEntry / 2
      in if lastBottom > MAX_BOUND
         then (let overflow = lastBottom - MAX_BOUND
               in applyBackwardSpacing gap (shiftAll (- overflow) es))
         else es)"

text \<open>Lines 293--301, for a non-empty list.\<close>

definition underflowStep :: "rat \<Rightarrow> entry list \<Rightarrow> entry list" where
  "underflowStep gap es =
     (let first = hd es;
          firstTop = centerY first - labelHeight first / 2
      in if firstTop < MIN_BOUND
         then (let underflow = MIN_BOUND - firstTop
               in applyForwardSpacing gap (shiftAll underflow es))
         else es)"

text \<open>The body of \<open>resolveSide\<close> after its guard, on the sorted, non-empty \<open>sideEntries\<close>.\<close>

definition layoutSide :: "entry list \<Rightarrow> entry list" where
  "layoutSide sideEntries =
     (let gap = sideSpacing sideEntries
      in clampFinal
           (underflowStep gap
              (overflowStep gap
                 (applyForwardSpacing gap (clampInitial sideEntries)))))"

text \<open>
  \<open>sideEntries\<close> holds the very objects of \<open>positions\<close>, so what \<open>resolveSide\<close> assigns shows
  in \<open>positions\<close>. The keys of \<open>positions\<close> are distinct, and \<open>writeBack\<close> replaces each
  entry of \<open>positions\<close> by the solved entry of the same key.
\<close>

definition writeBack :: "entry list \<Rightarrow> entry list \<Rightarrow> entry list" where
  "writeBack solved positions =
     map (\<lambda>p. case find (\<lambda>s. organKey s = organKey p) solved of
                Some s \<Rightarrow> s | None \<Rightarrow> p) positions"

definition sideEntriesOf :: "bool \<Rightarrow> entry list \<Rightarrow> entry list" where
  "sideEntriesOf right positions =
     sort_key origTop (filter (\<lambda>entry. isRightSide entry = right) positions)"

definition resolveSide :: "bool \<Rightarrow> entry list \<Rightarrow> entry list" where
  "resolveSide right positions =
     (let sideEntries = sideEntriesOf right positions
      in if length sideEntries = 0 then positions
         else writeBack (layoutSide sideEntries) positions)"

text \<open>The final \<open>positions.forEach\<close> of lines 311--320, for one entry.\<close>

definition declutter :: "entry \<Rightarrow> entry" where
  "declutter current =
     (let distance = \<bar>centerY current - origTop current\<bar>;
          moved = (if distance < LABEL_HEIGHT
                   then setLabelY current
                          (if centerY current < origTop current
                           then origTop current - LABEL_HEIGHT - 1
                           else origTop current + LABEL_HEIGHT + 1)
                   else current)
      in setLabelY moved (clampCenterWithHeight (centerY moved) (labelHeight moved)))"

definition adjustedPositions ::
  "(OrganKey \<Rightarrow> bool) \<Rightarrow> (string \<rightharpoonup> jsstring) \<Rightarrow> (OrganKey \<rightharpoonup> position) \<Rightarrow> entry list" where
  "adjustedPositions isOrganHighlighted organDetails markerPositions =
     map declutter
       (resolveSide False
          (resolveSide True
             (initialPositions isOrganHighlighted organDetails markerPositions organKeys)))"

subsection \<open>Connector paths\<close>

text \<open>
  The \<open>d\<close> attribute of the connector, as the list of its path commands: \<open>M x y\<close>,
  \<open>Q cx cy x y\<close> and \<open>L x y\<close>.
\<close>

datatype pathCommand = MoveTo rat rat | QuadTo rat rat rat rat | LineTo rat rat

text \<open>Curved version, lines 365--386; \<open>position\<close> is the entry's \<open>adjustedPosition\<close>.\<close>

definition curvedPath :: "adjusted \<Rightarrow> bool \<Rightarrow> pathCommand list" where
  "curvedPath pos isRight =
     (let organCenterX = p_left pos;
          organCenterY = p_top pos;
          lx = labelX pos;
          ly = labelY pos;
          midX = (organCenterX + lx) / 2;
          controlPointX = midX + (if isRight then - 8 else 8);
          controlPointY = (organCenterY + ly) / 2
      in [MoveTo organCenterX organCenterY, QuadTo controlPointX controlPointY lx ly])"

text \<open>Grid version, lines 791--797.\<close>

definition elbowPath :: "position \<Rightarrow> rat \<Rightarrow> rat \<Rightarrow> pathCommand list" where
  "elbowPath organPos colX row =
     (let organX = p_left organPos;
          organY = p_top organPos;
          anchorX = colX;
          connectorMidX = (organX + anchorX) / 2
      in [MoveTo anchorX row, LineTo connectorMidX row, LineTo organX organY])"

text \<open>The two render loops (lines 327--340 and 750--767) draw one connector per entry.\<close>

definition curvedConnectors ::
  "(OrganKey \<Rightarrow> bool) \<Rightarrow> (string \<rightharpoonup> jsstring) \<Rightarrow> (OrganKey \<rightharpoonup> position)
     \<Rightarrow> pathCommand list list" where
  "curvedConnectors isOrganHighlighted organDetails markerPositions =
     map (\<lambda>e. curvedPath (adjustedPosition e) (isRightSide e))
       (adjustedPositions isOrganHighlighted organDetails markerPositions)"

definition elbowConnectors ::
  "(OrganKey \<Rightarrow> bool) \<Rightarrow> (OrganKey \<rightharpoonup> position) \<Rightarrow> ColumnPositionOverrides option
     \<Rightarrow> pathCommand list list" where
  "elbowConnectors isOrganHighlighted markerPositions columnPositions =
     map (\<lambda>a. elbowPath (organPosition a) (columnX a) (rowY a))
       (gridPositions isOrganHighlighted markerPositions columnPositions)"

subsection \<open>Properties of a side's centers\<close>

text \<open>
  Grid version: every center is at least \<open>spacing\<close> below the one before it.
\<close>

definition spaced :: "rat list \<Rightarrow> bool" where
  "spaced cs \<longleftrightarrow> (\<forall>i. Suc i < length cs \<longrightarrow> cs ! i + spacing \<le> cs ! Suc i)"

text \<open>
  Curved version: every adjacent pair keeps \<open>(heightPrev + heightCurr) / 2 + gap\<close> between
  its centers, the labels being listed from top to bottom.
\<close>

fun gapsOk :: "rat \<Rightarrow> entry list \<Rightarrow> bool" where
  "gapsOk gap (prev # current # rest) \<longleftrightarrow>
     centerY prev + (labelHeight prev + labelHeight current) / 2 + gap \<le> centerY current
     \<and> gapsOk gap (current # rest)"
| "gapsOk gap es \<longleftrightarrow> True"

text \<open>A label's extent \<open>center \<plusminus> height / 2\<close> lies within the bounds of the curved version.\<close>

definition withinBounds :: "entry \<Rightarrow> bool" where
  "withinBounds e \<longleftrightarrow>
     MIN_BOUND \<le> centerY e - labelHeight e / 2 \<and> centerY e + labelHeight e / 2 \<le> MAX_BOUND"

text \<open>
  The whitespace-normalised text as the specification describes it, written without
  reference to \<open>replace\<close> and \<open>trim\<close>: the words of a string are its maximal runs of
  code units that are not whitespace, and the normalised text is these words joined by
  single spaces.
\<close>

function wordsOf :: "jsstring \<Rightarrow> jsstring list" where
  "wordsOf [] = []"
| "wordsOf (c # cs) =
     (if isWhitespace c then wordsOf cs
      else (c # takeWhile (\<lambda>x. \<not> isWhitespace x) cs)
             # wordsOf (dropWhile (\<lambda>x. \<not> isWhitespace x) cs))"
  by pat_completeness auto
termination
  by (relation "measure length") (auto simp: less_Suc_eq_le length_dropWhile_le)

fun joinWords :: "jsstring list \<Rightarrow> jsstring" where
  "joinWords [] = []"
| "joinWords [w] = w"
| "joinWords (w # v # ws) = w @ 0x20 # joinWords (v # ws)"

definition normalizeWhitespace :: "jsstring \<Rightarrow> jsstring" where
  "normalizeWhitespace s = joinWords (wordsOf s)"

text \<open>The right half of \<open>trim\<close>.\<close>

definition trimEnd :: "jsstring \<Rightarrow> jsstring" where
  "trimEnd s = rev (dropWhile isWhitespace (rev s))"

text \<open>
  An entry with its \<open>labelY\<close> blanked: all that the solver never assigns.
\<close>

definition frame :: "entry \<Rightarrow> entry" where
  "frame e = setLabelY e 0"

section \<open>The grid solver keeps its spacing\<close>

lemma length_placeCenters: "length (placeCenters cs items) = length cs + length items"
  by (induction items arbitrary: cs) (simp_all add: Let_def)

lemma placeCenters_prefix: "k < length cs \<Longrightarrow> placeCenters cs items ! k = cs ! k"
  by (induction items arbitrary: cs) (simp_all add: Let_def nth_append)

lemma placeCenters_nth:
  "j < length items \<Longrightarrow>
   placeCenters cs items ! (length cs + j) =
     max (clampCenter (p_top (g_position (items ! j))))
         (if length cs + j = 0 then minCenter
          else placeCenters cs items ! (length cs + j - 1) + spacing)"
proof (induction items arbitrary: cs j)
  case Nil
  then show ?case by simp
next
  case (Cons item rest)
  let ?v = "max (clampCenter (p_top (g_position item)))
                (if length cs = 0 then minCenter else cs ! (length cs - 1) + spacing)"
  have unfold: "placeCenters cs (item # rest) = placeCenters (cs @ [?v]) rest"
    by (simp add: Let_def)
  show ?case
  proof (cases j)
    case 0
    have "placeCenters (cs @ [?v]) rest ! length cs = ?v"
      by (simp add: placeCenters_prefix)
    moreover have "length cs \<noteq> 0 \<Longrightarrow>
        placeCenters (cs @ [?v]) rest ! (length cs - 1) = cs ! (length cs - 1)"
      by (simp add: placeCenters_prefix nth_append)
    ultimately show ?thesis using 0 unfold by auto
  next
    case (Suc j')
    with Cons.prems have "j' < length rest" by simp
    from Cons.IH [OF this, of "cs @ [?v]"] show ?thesis
      using Suc unfold by simp
  qed
qed

lemma spaced_placeCenters: "spaced (placeCenters [] items)"
  unfolding spaced_def
proof (intro allI impI)
  fix i assume "Suc i < length (placeCenters [] items)"
  then have "Suc i < length items" by (simp add: length_placeCenters)
  from placeCenters_nth [OF this, of "[]"] show
    "placeCenters [] items ! i + spacing \<le> placeCenters [] items ! Suc i"
    by simp
qed

lemma length_pullUp: "length (pullUp n ov cs) = length cs"
  by (induction n ov cs rule: pullUp.induct) (simp_all add: Let_def)

lemma spaced_update:
  assumes sp: "spaced cs" and i: "i < length cs"
    and lo: "i \<noteq> 0 \<Longrightarrow> cs ! (i - 1) + spacing \<le> v" and hi: "v \<le> cs ! i"
  shows "spaced (cs[i := v])"
  unfolding spaced_def
proof (intro allI impI)
  fix k assume k: "Suc k < length (cs[i := v])"
  then have k': "Suc k < length cs" by simp
  from sp k' have base: "cs ! k + spacing \<le> cs ! Suc k" by (simp add: spaced_def)
  consider "Suc k = i" | "k = i" | "k \<noteq> i" "Suc k \<noteq> i" by blast
  then show "cs[i := v] ! k + spacing \<le> cs[i := v] ! Suc k"
  proof cases
    case 1
    then have "cs[i := v] ! k = cs ! (i - 1)" "cs[i := v] ! Suc k = v" using i by auto
    with lo 1 show ?thesis by simp
  next
    case 2
    then have "cs[i := v] ! k = v" "cs[i := v] ! Suc k = cs ! Suc k" using i by auto
    with hi base 2 show ?thesis by simp
  next
    case 3
    then show ?thesis using base by simp
  qed
qed

lemma spaced_pullUp: "spaced cs \<Longrightarrow> n \<le> length cs \<Longrightarrow> spaced (pullUp n ov cs)"
proof (induction n ov cs rule: pullUp.induct)
  case (1 overflow centers)
  then show ?case by simp
next
  case (2 i overflow centers)
  let ?prevBound = "if i = 0 then minCenter else centers ! (i - 1) + spacing"
  let ?avail = "centers ! i - ?prevBound"
  let ?shift = "min ?avail overflow"
  show ?case
  proof (cases "overflow > 0")
    case False
    then show ?thesis using 2 by simp
  next
    case pos: True
    show ?thesis
    proof (cases "?avail \<le> 0")
      case True
      then show ?thesis using 2 pos by (simp add: Let_def)
    next
      case False
      have "spaced (centers[i := centers ! i - ?shift])"
      proof (rule spaced_update)
        show "spaced centers" by fact
        show "i < length centers" using "2.prems" by simp
        show "centers ! (i - 1) + spacing \<le> centers ! i - ?shift" if "i \<noteq> 0"
          using that by (simp add: min_def)
        show "centers ! i - ?shift \<le> centers ! i" using pos False by (simp add: min_def)
      qed
      moreover have "i \<le> length (centers[i := centers ! i - ?shift])"
        using "2.prems" by simp
      ultimately have "spaced (pullUp i (overflow - ?shift) (centers[i := centers ! i - ?shift]))"
        using "2.IH"(2) pos False by (simp add: Let_def)
      then show ?thesis using pos False by (simp add: Let_def)
    qed
  qed
qed

lemma length_solveCenters: "length (solveCenters items) = length items"
  by (simp add: solveCenters_def Let_def length_pullUp length_placeCenters)

lemma spaced_solveCenters: "spaced (solveCenters items)"
  by (simp add: solveCenters_def Let_def spaced_pullUp spaced_placeCenters)

lemma length_sortByTop: "length (sortByTop items) = length items"
  by (simp add: sortByTop_def)

lemma rowY_adjustSide: "map rowY (adjustSide items colX r) = solveCenters (sortByTop items)"
proof -
  have "map rowY (adjustSide items colX r) = map snd (zip (sortByTop items) (solveCenters (sortByTop items)))"
    by (simp add: adjustSide_def Let_def case_prod_beta comp_def)
  then show ?thesis by (simp add: length_solveCenters)
qed

lemma length_adjustSide: "length (adjustSide items colX r) = length items"
  by (simp add: adjustSide_def Let_def length_solveCenters length_sortByTop)

section \<open>The passes of the curved solver\<close>

lemma setLabelY_simps [simp]:
  "centerY (setLabelY e v) = v"
  "labelHeight (setLabelY e v) = labelHeight e"
  "organKey (setLabelY e v) = organKey e"
  "originalPosition (setLabelY e v) = originalPosition e"
  "isRightSide (setLabelY e v) = isRightSide e"
  "labelX (adjustedPosition (setLabelY e v)) = labelX (adjustedPosition e)"
  "p_left (adjustedPosition (setLabelY e v)) = p_left (adjustedPosition e)"
  "p_top (adjustedPosition (setLabelY e v)) = p_top (adjustedPosition e)"
  by (simp_all add: setLabelY_def)

lemma setLabelY_twice [simp]: "setLabelY (setLabelY e v) w = setLabelY e w"
  by (simp add: setLabelY_def)

lemma setLabelY_same [simp]: "setLabelY e (centerY e) = e"
  by (simp add: setLabelY_def)

lemma pushDown_fields [simp]:
  "labelHeight (pushDown gap prev current) = labelHeight current"
  "organKey (pushDown gap prev current) = organKey current"
  "originalPosition (pushDown gap prev current) = originalPosition current"
  "isRightSide (pushDown gap prev current) = isRightSide current"
  by (simp_all add: pushDown_def Let_def)

lemma pushDown_center:
  "centerY (pushDown gap prev current) =
     (if centerY current - centerY prev < (labelHeight prev + labelHeight current) / 2 + gap
      then centerY prev + (labelHeight prev + labelHeight current) / 2 + gap
      else centerY current)"
  by (simp add: pushDown_def Let_def field_simps)


lemma forward_Cons: "\<exists>ys. applyForwardSpacing gap (x # xs) = x # ys \<and> length ys = length xs"
proof (induction xs arbitrary: x)
  case Nil
  then show ?case by simp
next
  case (Cons y rest)
  from Cons.IH [of "pushDown gap x y"] show ?case by auto
qed

lemma length_forward [simp]: "length (applyForwardSpacing gap es) = length es"
proof (cases es)
  case Nil
  then show ?thesis by simp
next
  case (Cons x xs)
  then show ?thesis using forward_Cons [of gap x xs] by auto
qed


lemma gapsOk_forward: "gapsOk gap (applyForwardSpacing gap es)"
proof (induction gap es rule: applyForwardSpacing.induct)
  case (1 gap prev current rest)
  obtain ys where ys: "applyForwardSpacing gap (pushDown gap prev current # rest) = pushDown gap prev current # ys"
    using forward_Cons by blast
  have "gapsOk gap (pushDown gap prev current # ys)" using "1.IH" ys by simp
  moreover have "centerY prev + (labelHeight prev + labelHeight current) / 2 + gap
                   \<le> centerY (pushDown gap prev current)"
    by (simp add: pushDown_center)
  ultimately show ?case using ys by simp
qed simp_all

lemma gapsOk_shiftAll: "gapsOk gap (shiftAll d es) = gapsOk gap es"
  by (induction gap es rule: gapsOk.induct) (simp_all add: shiftAll_def algebra_simps)

lemma backward_id: "gapsOk gap es \<Longrightarrow> applyBackwardSpacing gap es = es"
proof (induction es)
  case Nil
  then show ?case by simp
next
  case (Cons current rest)
  show ?case
  proof (cases rest)
    case Nil
    then show ?thesis by simp
  next
    case (Cons nxt below)
    with Cons.prems Cons.IH have "applyBackwardSpacing gap rest = nxt # below"
      by simp
    moreover have "pushUp gap nxt current = current"
      using Cons.prems Cons by (simp add: pushUp_def Let_def field_simps)
    ultimately show ?thesis using Cons by simp
  qed
qed

lemma overflow_uniform:
  assumes "MAX_BOUND < centerY (last (applyForwardSpacing gap es)) + labelHeight (last (applyForwardSpacing gap es)) / 2"
  shows "overflowStep gap (applyForwardSpacing gap es) =
         shiftAll (- (centerY (last (applyForwardSpacing gap es)) + labelHeight (last (applyForwardSpacing gap es)) / 2 - MAX_BOUND))
           (applyForwardSpacing gap es)"
  using assms by (simp add: overflowStep_def Let_def backward_id gapsOk_shiftAll gapsOk_forward)

lemma clamp_bounds:
  assumes "h \<le> MAX_BOUND - MIN_BOUND"
  shows "MIN_BOUND \<le> clampCenterWithHeight c h - h / 2 \<and> clampCenterWithHeight c h + h / 2 \<le> MAX_BOUND"
  using assms by (auto simp: clampCenterWithHeight_def Let_def)


lemma clamp_cases:
  "clampCenterWithHeight c h = c \<or> clampCenterWithHeight c h = MIN_BOUND + h / 2
     \<or> clampCenterWithHeight c h = MAX_BOUND - h / 2"
  by (auto simp: clampCenterWithHeight_def Let_def)

lemma declutter_fields [simp]:
  "labelHeight (declutter e) = labelHeight e"
  "organKey (declutter e) = organKey e"
  "originalPosition (declutter e) = originalPosition e"
  "isRightSide (declutter e) = isRightSide e"
  by (simp_all add: declutter_def Let_def)

lemma declutter_center:
  "\<exists>c. \<bar>c - origTop e\<bar> \<ge> LABEL_HEIGHT \<and> centerY (declutter e) = clampCenterWithHeight c (labelHeight e)"
proof (cases "\<bar>centerY e - origTop e\<bar> < LABEL_HEIGHT")
  case True
  then show ?thesis
    by (intro exI [of _ "if centerY e < origTop e then origTop e - LABEL_HEIGHT - 1 else origTop e + LABEL_HEIGHT + 1"])
       (auto simp: declutter_def Let_def LABEL_HEIGHT_def)
next
  case False
  then show ?thesis
    by (intro exI [of _ "centerY e"]) (auto simp: declutter_def Let_def)
qed

lemma declutter_withinBounds:
  "labelHeight e \<le> MAX_BOUND - MIN_BOUND \<Longrightarrow> withinBounds (declutter e)"
  using declutter_center [of e] clamp_bounds by (auto simp: withinBounds_def)



lemmas grid_consts = clampCenter_def minCenter_def maxCenter_def spacing_def halfHeight_def
  cardHeight_def topPadding_def bottomPadding_def minVerticalGap_def

lemmas curved_consts = LABEL_HEIGHT_def MIN_VERTICAL_SPACING_def MIN_BOUND_def MAX_BOUND_def

section \<open>Claims about the grid solver\<close>

text \<open>
  Claim C10. In \<open>adjustSide\<close>, whatever the items of a side are, each final center is at
  least \<open>cardHeight + minVerticalGap = 11\<close> below the center before it in the sorted
  order. No condition on the number of items or on the room between the bounds is
  needed: \<open>placeCenters\<close> starts every center at least \<open>spacing\<close> below its predecessor,
  and \<open>pullUp\<close> moves a center up by no more than its slack above the predecessor.
\<close>

theorem adjustSide_gap:
  assumes "Suc i < length (adjustSide items colX r)"
  shows "rowY (adjustSide items colX r ! Suc i) - rowY (adjustSide items colX r ! i)
           \<ge> cardHeight + minVerticalGap \<and> cardHeight + minVerticalGap = 11"
proof -
  let ?out = "adjustSide items colX r"
  have "spaced (map rowY ?out)" by (simp add: rowY_adjustSide spaced_solveCenters)
  with assms have "map rowY ?out ! i + spacing \<le> map rowY ?out ! Suc i"
    by (simp add: spaced_def)
  with assms show ?thesis by (simp add: spacing_def cardHeight_def minVerticalGap_def)
qed

theorem adjustSide_gap_witness:
  "Suc 0 < length (adjustSide [\<lparr>g_organKey = brain, g_position = \<lparr>p_left = 40, p_top = 90\<rparr>\<rparr>,
                               \<lparr>g_organKey = heart, g_position = \<lparr>p_left = 40, p_top = 92\<rparr>\<rparr>] 73 False)
   \<and> rowY (adjustSide [\<lparr>g_organKey = brain, g_position = \<lparr>p_left = 40, p_top = 90\<rparr>\<rparr>,
                       \<lparr>g_organKey = heart, g_position = \<lparr>p_left = 40, p_top = 92\<rparr>\<rparr>] 73 False ! Suc 0)
     - rowY (adjustSide [\<lparr>g_organKey = brain, g_position = \<lparr>p_left = 40, p_top = 90\<rparr>\<rparr>,
                         \<lparr>g_organKey = heart, g_position = \<lparr>p_left = 40, p_top = 92\<rparr>\<rparr>] 73 False ! 0)
     \<ge> 11"
proof -
  let ?items = "[\<lparr>g_organKey = brain, g_position = \<lparr>p_left = 40, p_top = 90\<rparr>\<rparr>,
                 \<lparr>g_organKey = heart, g_position = \<lparr>p_left = 40, p_top = 92\<rparr>\<rparr>]"
  have h: "Suc 0 < length (adjustSide ?items 73 False)" by (simp add: length_adjustSide)
  from adjustSide_gap [OF h] h show ?thesis by simp
qed




section \<open>The height estimator\<close>

lemma dropWhile_keeps: "x \<in> set s \<Longrightarrow> \<not> P x \<Longrightarrow> x \<in> set (dropWhile P s)"
  by (induction s) auto

lemma collapse_keeps:
  "x \<in> set s \<Longrightarrow> \<not> isWhitespace x \<Longrightarrow> x \<in> set (collapseWhitespace s)"
proof (induction s rule: collapseWhitespace.induct)
  case 1
  then show ?case by simp
next
  case (2 c cs)
  show ?case
  proof (cases "isWhitespace c")
    case True
    with "2.prems" have "x \<in> set cs" by auto
    then have "x \<in> set (dropWhile isWhitespace cs)"
      using "2.prems"(2) by (rule dropWhile_keeps)
    with "2.IH"(1) True "2.prems"(2) show ?thesis by simp
  next
    case False
    with "2.IH"(2) "2.prems" show ?thesis by auto
  qed
qed

lemma trim_keeps: "x \<in> set s \<Longrightarrow> \<not> isWhitespace x \<Longrightarrow> x \<in> set (trim s)"
  by (simp add: trim_def dropWhile_keeps)

lemma clean_blank:
  assumes "\<forall>c \<in> set s. isWhitespace c"
  shows "trim (collapseWhitespace s) = []"
proof (cases s)
  case Nil
  then show ?thesis by (simp add: trim_def)
next
  case (Cons c cs)
  with assms have "isWhitespace c" by simp
  moreover from Cons assms have "dropWhile isWhitespace cs = []" by simp
  ultimately have "collapseWhitespace s = 0x20 # collapseWhitespace []"
    using Cons by (simp only: collapseWhitespace.simps if_True)
  then have "collapseWhitespace s = [0x20]" by simp
  then show ?thesis by (simp add: trim_def isWhitespace_def)
qed

lemma clean_nonblank:
  assumes "\<not> (\<forall>c \<in> set s. isWhitespace c)"
  shows "trim (collapseWhitespace s) \<noteq> []"
proof -
  from assms obtain x where "x \<in> set s" "\<not> isWhitespace x" by blast
  then have "x \<in> set (trim (collapseWhitespace s))"
    by (simp add: trim_keeps collapse_keeps)
  then show ?thesis by auto
qed

lemma collapse_plain: "\<forall>c \<in> set s. \<not> isWhitespace c \<Longrightarrow> collapseWhitespace s = s"
  by (induction s) simp_all

lemma dropWhile_plain: "\<forall>x \<in> set xs. \<not> P x \<Longrightarrow> dropWhile P xs = xs"
  by (cases xs) auto

lemma trim_plain: "\<forall>c \<in> set s. \<not> isWhitespace c \<Longrightarrow> trim s = s"
  by (simp add: trim_def dropWhile_plain)

lemma estimate_ge: "LABEL_HEIGHT \<le> estimateLabelHeight detail"
proof -
  have "0 \<le> rat_of_int \<lceil>rat_of_nat n / 34\<rceil> * 3.2" for n
  proof -
    have "(0::rat) \<le> rat_of_nat n / 34" by simp
    then have "0 \<le> \<lceil>rat_of_nat n / 34\<rceil>" by (simp add: zero_le_ceiling)
    then show ?thesis by simp
  qed
  then show ?thesis
    by (auto simp: estimateLabelHeight_def Let_def split: option.splits)
qed

lemma lines_70: "\<lceil>rat_of_nat 70 / 34\<rceil> = 3"
  by (rule ceiling_unique) simp_all

lemma trim_trimEnd: "trim s = trimEnd (dropWhile isWhitespace s)"
  by (simp add: trim_def trimEnd_def)

lemma trimEnd_keep:
  assumes "x \<in> set ys" "\<not> isWhitespace x"
  shows "trimEnd (xs @ ys) = xs @ trimEnd ys"
proof -
  from assms have "dropWhile isWhitespace (rev ys @ rev xs) = dropWhile isWhitespace (rev ys) @ rev xs"
    by (intro dropWhile_append1 [of x]) simp_all
  then show ?thesis by (simp add: trimEnd_def)
qed

lemma trimEnd_blank:
  assumes "\<forall>x \<in> set ys. isWhitespace x"
  shows "trimEnd (xs @ ys) = trimEnd xs"
proof -
  from assms have "dropWhile isWhitespace (rev ys @ rev xs) = dropWhile isWhitespace (rev xs)"
    by (intro dropWhile_append2) simp
  then show ?thesis by (simp add: trimEnd_def)
qed

lemma trimEnd_plain: "\<forall>x \<in> set xs. \<not> isWhitespace x \<Longrightarrow> trimEnd xs = xs"
  by (simp add: trimEnd_def dropWhile_plain)

lemma collapse_word:
  "\<forall>x \<in> set w. \<not> isWhitespace x \<Longrightarrow> collapseWhitespace (w @ rest) = w @ collapseWhitespace rest"
  by (induction w) simp_all

lemma wordsOf_skip: "wordsOf (dropWhile isWhitespace s) = wordsOf s"
  by (induction s) simp_all

lemma skip_start: "dropWhile P s = [] \<or> \<not> P (hd (dropWhile P s))"
  using hd_dropWhile [of P s] by blast

lemma collapse_skip:
  "dropWhile isWhitespace (collapseWhitespace s) = collapseWhitespace (dropWhile isWhitespace s)"
proof (cases s)
  case Nil
  then show ?thesis by simp
next
  case (Cons c cs)
  have start: "dropWhile isWhitespace (collapseWhitespace r) = collapseWhitespace r"
    if "r = [] \<or> \<not> isWhitespace (hd r)" for r
    using that by (cases r) auto
  show ?thesis
  proof (cases "isWhitespace c")
    case True
    let ?r = "dropWhile isWhitespace cs"
    have "?r = [] \<or> \<not> isWhitespace (hd ?r)" by (rule skip_start)
    from start [OF this] True Cons show ?thesis by (simp add: isWhitespace_def)
  next
    case False
    with Cons show ?thesis by simp
  qed
qed

lemma space_is_whitespace: "isWhitespace 0x20"
  by (simp add: isWhitespace_def)

lemma trimEnd_collapse:
  "s = [] \<or> \<not> isWhitespace (hd s) \<Longrightarrow> trimEnd (collapseWhitespace s) = joinWords (wordsOf s)"
proof (induction "length s" arbitrary: s rule: less_induct)
  case less
  show ?case
  proof (cases s)
    case Nil
    then show ?thesis by (simp add: trimEnd_def)
  next
    case (Cons c cs)
    with less.prems have c: "\<not> isWhitespace c" by simp
    let ?w = "c # takeWhile (\<lambda>x. \<not> isWhitespace x) cs"
    let ?rest = "dropWhile (\<lambda>x. \<not> isWhitespace x) cs"
    have s: "s = ?w @ ?rest" using Cons by simp
    have w: "\<forall>x \<in> set ?w. \<not> isWhitespace x" using c by (auto dest: set_takeWhileD)
    have col: "collapseWhitespace s = ?w @ collapseWhitespace ?rest"
      using collapse_word [OF w, of ?rest] s by simp
    have words: "wordsOf s = ?w # wordsOf ?rest" using Cons c by simp
    show ?thesis
    proof (cases ?rest)
      case Nil
      with col words w show ?thesis by (simp add: trimEnd_plain)
    next
      case rest: (Cons d ds)
      then have d: "isWhitespace d"
        using hd_dropWhile [of "\<lambda>x. \<not> isWhitespace x" cs] by auto
      let ?r = "dropWhile isWhitespace ds"
      have colrest: "collapseWhitespace ?rest = 0x20 # collapseWhitespace ?r"
        using rest d by simp
      have wordsrest: "wordsOf ?rest = wordsOf ?r"
        using rest d by (simp add: wordsOf_skip)
      show ?thesis
      proof (cases ?r)
        case Nil
        have "collapseWhitespace s = ?w @ 0x20 # collapseWhitespace ?r"
          using col colrest by simp
        then have "collapseWhitespace s = ?w @ [0x20]"
          by (simp only: Nil collapseWhitespace.simps)
        then have "trimEnd (collapseWhitespace s) = trimEnd ?w"
          using trimEnd_blank [of "[0x20]" ?w] space_is_whitespace by simp
        with w words wordsrest Nil show ?thesis by (simp add: trimEnd_plain)
      next
        case r: (Cons e es)
        then have e: "\<not> isWhitespace e"
          using hd_dropWhile [of isWhitespace ds] by auto
        have "length ?r \<le> length ds" by (rule length_dropWhile_le)
        moreover have "length ?rest \<le> length cs" by (rule length_dropWhile_le)
        ultimately have short: "length ?r < length s" using rest Cons by simp
        have start: "?r = [] \<or> \<not> isWhitespace (hd ?r)" using r e by simp
        from less.hyps [OF short start]
        have ih: "trimEnd (collapseWhitespace ?r) = joinWords (wordsOf ?r)" .
        have "e \<in> set (collapseWhitespace ?r)" using r e by (simp add: collapse_keeps)
        from trimEnd_keep [OF this e, of "?w @ [0x20]"]
        have "trimEnd (collapseWhitespace s) = ?w @ 0x20 # trimEnd (collapseWhitespace ?r)"
          using col colrest by simp
        moreover obtain v vs where vs: "wordsOf ?r = v # vs" using r e by simp
        ultimately show ?thesis using ih words wordsrest by simp
      qed
    qed
  qed
qed

lemma clean_normalized: "trim (collapseWhitespace s) = normalizeWhitespace s"
proof -
  let ?r = "dropWhile isWhitespace s"
  have "?r = [] \<or> \<not> isWhitespace (hd ?r)" by (rule skip_start)
  then have "trimEnd (collapseWhitespace ?r) = joinWords (wordsOf ?r)" by (rule trimEnd_collapse)
  then show ?thesis
    by (simp add: trim_trimEnd collapse_skip wordsOf_skip normalizeWhitespace_def)
qed


lemma filter_takeWhile_same: "filter P (takeWhile P xs) = takeWhile P xs"
  by (induction xs) simp_all

lemma words_concat: "concat (wordsOf s) = filter (\<lambda>x. \<not> isWhitespace x) s"
proof (induction s rule: wordsOf.induct)
  case 1
  then show ?case by simp
next
  case (2 c cs)
  show ?case
  proof (cases "isWhitespace c")
    case True
    with "2.IH"(1) show ?thesis by simp
  next
    case False
    have "filter (\<lambda>x. \<not> isWhitespace x) cs
        = filter (\<lambda>x. \<not> isWhitespace x)
            (takeWhile (\<lambda>x. \<not> isWhitespace x) cs @ dropWhile (\<lambda>x. \<not> isWhitespace x) cs)"
      by simp
    also have "\<dots> = takeWhile (\<lambda>x. \<not> isWhitespace x) cs
        @ filter (\<lambda>x. \<not> isWhitespace x) (dropWhile (\<lambda>x. \<not> isWhitespace x) cs)"
      by (simp only: filter_append filter_takeWhile_same)
    finally show ?thesis using False "2.IH"(2) by simp
  qed
qed

lemma words_plain: "w \<in> set (wordsOf s) \<Longrightarrow> w \<noteq> [] \<and> (\<forall>x \<in> set w. \<not> isWhitespace x)"
proof (induction s rule: wordsOf.induct)
  case 1
  then show ?case by simp
next
  case (2 c cs)
  show ?case
  proof (cases "isWhitespace c")
    case True
    with 2 show ?thesis by simp
  next
    case False
    with "2.prems" consider "w = c # takeWhile (\<lambda>x. \<not> isWhitespace x) cs"
      | "w \<in> set (wordsOf (dropWhile (\<lambda>x. \<not> isWhitespace x) cs))" by auto
    then show ?thesis
    proof cases
      case 1
      with False show ?thesis by (auto dest: set_takeWhileD)
    next
      case 2
      with "2.IH"(2) False show ?thesis by simp
    qed
  qed
qed

lemma length_joinWords:
  "length (joinWords ws) = sum_list (map length ws) + (length ws - 1)"
  by (induction ws rule: joinWords.induct) simp_all


text \<open>
  Claim C7. \<open>estimateLabelHeight\<close> returns \<open>LABEL_HEIGHT\<close> (6.5) for a missing detail,
  for the empty string and for a string of whitespace only. For any other string it
  returns \<open>LABEL_HEIGHT + ceil(n / 34) * 3.2\<close>, where \<open>n\<close> is the length of the string
  after its runs of whitespace have been collapsed and its ends trimmed. The result is
  never below \<open>LABEL_HEIGHT\<close>, and a normalised length of 70 gives three lines.

  What \<open>replace\<close> and \<open>trim\<close> leave is the whitespace-normalised text: the words of the
  detail, each a non-empty run without whitespace and together all its code units that
  are not whitespace, joined by single spaces. So \<open>n\<close> is the total length of the words
  plus one for every gap between two of them.
\<close>

theorem estimateLabelHeight_contract:
  "estimateLabelHeight None = LABEL_HEIGHT
   \<and> estimateLabelHeight (Some []) = LABEL_HEIGHT
   \<and> ((\<forall>c \<in> set blank. isWhitespace c) \<longrightarrow> estimateLabelHeight (Some blank) = LABEL_HEIGHT)
   \<and> (\<not> (\<forall>c \<in> set d. isWhitespace c) \<longrightarrow>
        estimateLabelHeight (Some d)
          = LABEL_HEIGHT
            + rat_of_int \<lceil>rat_of_nat (length (trim (collapseWhitespace d))) / 34\<rceil> * 3.2)
   \<and> LABEL_HEIGHT \<le> estimateLabelHeight detail
   \<and> (length (trim (collapseWhitespace t)) = 70 \<longrightarrow>
        estimateLabelHeight (Some t) = LABEL_HEIGHT + 3 * 3.2)
   \<and> trim (collapseWhitespace d) = normalizeWhitespace d
   \<and> concat (wordsOf d) = filter (\<lambda>x. \<not> isWhitespace x) d
   \<and> (\<forall>w \<in> set (wordsOf d). w \<noteq> [] \<and> (\<forall>x \<in> set w. \<not> isWhitespace x))
   \<and> length (normalizeWhitespace d)
       = sum_list (map length (wordsOf d)) + (length (wordsOf d) - 1)
   \<and> (\<not> (\<forall>c \<in> set d. isWhitespace c) \<longrightarrow>
        estimateLabelHeight (Some d)
          = LABEL_HEIGHT
            + rat_of_int \<lceil>rat_of_nat (length (normalizeWhitespace d)) / 34\<rceil> * 3.2)"
proof (intro conjI impI)
  show "estimateLabelHeight None = LABEL_HEIGHT" by (simp add: estimateLabelHeight_def)
  show "estimateLabelHeight (Some []) = LABEL_HEIGHT" by (simp add: estimateLabelHeight_def)
  show "estimateLabelHeight (Some blank) = LABEL_HEIGHT" if "\<forall>c \<in> set blank. isWhitespace c"
    using clean_blank [OF that] by (simp add: estimateLabelHeight_def)
  have formula: "estimateLabelHeight (Some d)
          = LABEL_HEIGHT
            + rat_of_int \<lceil>rat_of_nat (length (trim (collapseWhitespace d))) / 34\<rceil> * 3.2"
    if "\<not> (\<forall>c \<in> set d. isWhitespace c)"
  proof -
    from that have "d \<noteq> []" by auto
    with clean_nonblank [OF that] show ?thesis by (simp add: estimateLabelHeight_def Let_def)
  qed
  then show "estimateLabelHeight (Some d)
          = LABEL_HEIGHT
            + rat_of_int \<lceil>rat_of_nat (length (trim (collapseWhitespace d))) / 34\<rceil> * 3.2"
    if "\<not> (\<forall>c \<in> set d. isWhitespace c)"
    using that .
  show "estimateLabelHeight (Some d)
          = LABEL_HEIGHT
            + rat_of_int \<lceil>rat_of_nat (length (normalizeWhitespace d)) / 34\<rceil> * 3.2"
    if nb: "\<not> (\<forall>c \<in> set d. isWhitespace c)"
    using formula [OF nb] by (simp only: clean_normalized)
  show "LABEL_HEIGHT \<le> estimateLabelHeight detail" by (rule estimate_ge)
  show "estimateLabelHeight (Some t) = LABEL_HEIGHT + 3 * 3.2"
    if "length (trim (collapseWhitespace t)) = 70"
  proof -
    from that have "trim (collapseWhitespace t) \<noteq> []" by auto
    moreover from that have "t \<noteq> []" by (auto simp: trim_def)
    ultimately show ?thesis using that lines_70 by (simp add: estimateLabelHeight_def Let_def)
  qed
  show "trim (collapseWhitespace d) = normalizeWhitespace d" by (rule clean_normalized)
  show "concat (wordsOf d) = filter (\<lambda>x. \<not> isWhitespace x) d" by (rule words_concat)
  show "\<forall>w \<in> set (wordsOf d). w \<noteq> [] \<and> (\<forall>x \<in> set w. \<not> isWhitespace x)"
    using words_plain by blast
  show "length (normalizeWhitespace d)
       = sum_list (map length (wordsOf d)) + (length (wordsOf d) - 1)"
    by (simp only: normalizeWhitespace_def length_joinWords)
qed

theorem estimateLabelHeight_contract_witness:
  "list_all isWhitespace [0x20, 0x09, 0x0A]
   \<and> estimateLabelHeight (Some [0x20, 0x09, 0x0A]) = 6.5
   \<and> \<not> (\<forall>c \<in> set [0x41, 0x20, 0x20, 0x42]. isWhitespace c)
   \<and> estimateLabelHeight (Some [0x41, 0x20, 0x20, 0x42]) = 9.7
   \<and> length (trim (collapseWhitespace (replicate 70 0x61))) = 70
   \<and> estimateLabelHeight (Some (replicate 70 0x61)) = 16.1
   \<and> wordsOf [0x20, 0x41, 0x09, 0x0A, 0x42, 0x20] = [[0x41], [0x42]]
   \<and> trim (collapseWhitespace [0x20, 0x41, 0x09, 0x0A, 0x42, 0x20]) = [0x41, 0x20, 0x42]
   \<and> \<not> (\<forall>c \<in> set (replicate 16 (0x61 :: 16 word) @ [0x20, 0x20] @ replicate 17 0x62). isWhitespace c)
   \<and> length (replicate 16 (0x61 :: 16 word) @ [0x20, 0x20] @ replicate 17 0x62) = 35
   \<and> length (trim (collapseWhitespace (replicate 16 (0x61 :: 16 word) @ [0x20, 0x20] @ replicate 17 0x62))) = 34
   \<and> estimateLabelHeight (Some (replicate 16 (0x61 :: 16 word) @ [0x20, 0x20] @ replicate 17 0x62)) = 9.7"
proof -
  have blank: "\<forall>c \<in> set [0x20, 0x09, 0x0A]. isWhitespace c"
    by (simp add: isWhitespace_def)
  have nonblank: "\<not> (\<forall>c \<in> set [0x41, 0x20, 0x20, 0x42]. isWhitespace c)"
    by (simp add: isWhitespace_def)
  have clean: "trim (collapseWhitespace [0x41, 0x20, 0x20, 0x42]) = [0x41, 0x20, 0x42]"
    by (simp add: trim_def isWhitespace_def)
  have one: "\<lceil>rat_of_nat 3 / 34\<rceil> = 1"
    by (rule ceiling_unique) simp_all
  have plain: "\<forall>c \<in> set (replicate 70 (0x61 :: 16 word)). \<not> isWhitespace c"
    by (simp add: isWhitespace_def)
  have long: "length (trim (collapseWhitespace (replicate 70 0x61))) = 70"
    by (simp add: collapse_plain [OF plain] trim_plain [OF plain])
  note inst1 = estimateLabelHeight_contract
         [of "[0x20, 0x09, 0x0A]" "[0x41, 0x20, 0x20, 0x42]" None "replicate 70 0x61"]
  from inst1 blank have h1: "estimateLabelHeight (Some [0x20, 0x09, 0x0A]) = LABEL_HEIGHT"
    by blast
  from inst1 nonblank
  have raw: "estimateLabelHeight (Some [0x41, 0x20, 0x20, 0x42])
          = LABEL_HEIGHT
            + rat_of_int \<lceil>rat_of_nat (length (trim (collapseWhitespace [0x41, 0x20, 0x20, 0x42]))) / 34\<rceil> * 3.2"
    by blast
  have h2: "estimateLabelHeight (Some [0x41, 0x20, 0x20, 0x42]) = 9.7"
    unfolding raw clean using one by (simp add: LABEL_HEIGHT_def)
  from inst1 long
  have h3: "estimateLabelHeight (Some (replicate 70 0x61)) = LABEL_HEIGHT + 3 * 3.2" by blast
  have first: "list_all isWhitespace [0x20, 0x09, 0x0A]
   \<and> estimateLabelHeight (Some [0x20, 0x09, 0x0A]) = 6.5
   \<and> \<not> (\<forall>c \<in> set [0x41, 0x20, 0x20, 0x42]. isWhitespace c)
   \<and> estimateLabelHeight (Some [0x41, 0x20, 0x20, 0x42]) = 9.7
   \<and> length (trim (collapseWhitespace (replicate 70 0x61))) = 70
   \<and> estimateLabelHeight (Some (replicate 70 0x61)) = 16.1"
    using blank nonblank long h2 unfolding h1 h3 list_all_iff
    by (simp add: LABEL_HEIGHT_def)
  let ?d3 = "[0x20, 0x41, 0x09, 0x0A, 0x42, 0x20] :: jsstring"
  let ?d2 = "(replicate 16 (0x61 :: 16 word) @ [0x20, 0x20] @ replicate 17 0x62) :: jsstring"
  have words3: "wordsOf ?d3 = [[0x41], [0x42]]"
    by (simp add: isWhitespace_def)
  note inst3 = estimateLabelHeight_contract [of "[]" ?d3 None "[]"]
  from inst3 have "trim (collapseWhitespace ?d3) = normalizeWhitespace ?d3" by blast
  then have clean3: "trim (collapseWhitespace ?d3) = [0x41, 0x20, 0x42]"
    by (simp only: normalizeWhitespace_def words3 joinWords.simps append.simps)
  have a: "\<not> isWhitespace 0x61" and b: "\<not> isWhitespace 0x62"
    by (simp_all add: isWhitespace_def)
  have nonblank2: "\<not> (\<forall>c \<in> set ?d2. isWhitespace c)" using a by simp
  have words2: "wordsOf ?d2 = [replicate 16 0x61, replicate 17 0x62]"
    by code_simp
  note inst2 = estimateLabelHeight_contract [of "[]" ?d2 None "[]"]
  from inst2 have rawlen: "length (normalizeWhitespace ?d2)
       = sum_list (map length (wordsOf ?d2)) + (length (wordsOf ?d2) - 1)" by blast
  have len2: "length (normalizeWhitespace ?d2) = 34" unfolding rawlen words2 by simp
  from inst2 have same2: "trim (collapseWhitespace ?d2) = normalizeWhitespace ?d2" by blast
  have ceil2: "\<lceil>rat_of_nat 34 / 34\<rceil> = 1" by simp
  from inst2 nonblank2
  have raw2: "estimateLabelHeight (Some ?d2)
          = LABEL_HEIGHT
            + rat_of_int \<lceil>rat_of_nat (length (normalizeWhitespace ?d2)) / 34\<rceil> * 3.2" by blast
  have height2: "estimateLabelHeight (Some ?d2) = 9.7"
    unfolding raw2 len2 by (simp add: LABEL_HEIGHT_def)
  have len35: "length ?d2 = 35" by simp
  have cleanlen2: "length (trim (collapseWhitespace ?d2)) = 34"
    by (simp only: same2 len2)
  from first have f: "list_all isWhitespace [0x20, 0x09, 0x0A]"
    "estimateLabelHeight (Some [0x20, 0x09, 0x0A]) = 6.5"
    "\<not> (\<forall>c \<in> set [0x41, 0x20, 0x20, 0x42]. isWhitespace c)"
    "estimateLabelHeight (Some [0x41, 0x20, 0x20, 0x42]) = 9.7"
    "length (trim (collapseWhitespace (replicate 70 0x61))) = 70"
    "estimateLabelHeight (Some (replicate 70 0x61)) = 16.1"
    by blast+
  show ?thesis
    by (intro conjI) (fact f words3 clean3 nonblank2 len35 cleanlen2 height2)+
qed


section \<open>Claims about the curved solver\<close>

lemma shiftAll_fields:
  "map labelHeight (shiftAll d es) = map labelHeight es"
  "map centerY (shiftAll d es) = map (\<lambda>e. centerY e + d) es"
  by (simp_all add: shiftAll_def comp_def)

lemma clampFinal_withinBounds:
  assumes "e \<in> set (clampFinal es)" "labelHeight e \<le> MAX_BOUND - MIN_BOUND"
  shows "withinBounds e"
proof -
  from assms(1) obtain x where x: "x \<in> set es"
      "e = setLabelY x (clampCenterWithHeight (centerY x) (labelHeight x))"
    by (auto simp: clampFinal_def)
  with assms(2) clamp_bounds [of "labelHeight x" "centerY x"] show ?thesis
    by (simp add: withinBounds_def)
qed

lemma forward_heights [simp]:
  "map labelHeight (applyForwardSpacing gap es) = map labelHeight es"
  by (induction gap es rule: applyForwardSpacing.induct) simp_all

lemma backward_Cons:
  "\<exists>y ys. applyBackwardSpacing gap (x # xs) = y # ys \<and> labelHeight y = labelHeight x
     \<and> organKey y = organKey x \<and> originalPosition y = originalPosition x
     \<and> isRightSide y = isRightSide x \<and> length ys = length xs"
proof (induction xs arbitrary: x)
  case Nil
  then show ?case by simp
next
  case (Cons a rest)
  from Cons.IH [of a] show ?case by (auto simp: pushUp_def Let_def)
qed

lemma length_backward [simp]: "length (applyBackwardSpacing gap es) = length es"
proof (cases es)
  case Nil
  then show ?thesis by simp
next
  case (Cons x xs)
  then show ?thesis using backward_Cons [of gap x xs] by auto
qed

lemma backward_heights [simp]:
  "map labelHeight (applyBackwardSpacing gap es) = map labelHeight es"
proof (induction es)
  case Nil
  then show ?case by simp
next
  case (Cons x xs)
  from backward_Cons [of gap x xs] obtain y ys where
    y: "applyBackwardSpacing gap (x # xs) = y # ys" "labelHeight y = labelHeight x" by blast
  show ?case
  proof (cases "applyBackwardSpacing gap xs")
    case Nil
    then have "xs = []" using length_backward [of gap xs] by simp
    then show ?thesis by simp
  next
    case (Cons n below)
    with Cons.IH have "map labelHeight xs = labelHeight n # map labelHeight below" by simp
    with Cons show ?thesis by (simp add: pushUp_def Let_def)
  qed
qed

lemma overflowStep_heights [simp]:
  "map labelHeight (overflowStep gap es) = map labelHeight es"
  by (simp add: overflowStep_def Let_def shiftAll_fields)

lemma underflowStep_heights [simp]:
  "map labelHeight (underflowStep gap es) = map labelHeight es"
  by (simp add: underflowStep_def Let_def shiftAll_fields)

lemma layoutSide_heights: "map labelHeight (layoutSide es) = map labelHeight es"
  by (simp add: layoutSide_def Let_def clampFinal_def clampInitial_def comp_def)

lemma layoutSide_withinBounds:
  assumes "e \<in> set (layoutSide es)" "labelHeight e \<le> MAX_BOUND - MIN_BOUND"
  shows "withinBounds e"
  using assms unfolding layoutSide_def Let_def by (rule clampFinal_withinBounds)

lemma adjustedPositions_withinBounds:
  assumes "e \<in> set (adjustedPositions hl det mp)" "labelHeight e \<le> MAX_BOUND - MIN_BOUND"
  shows "withinBounds e"
proof -
  from assms(1) obtain x where "e = declutter x" by (auto simp: adjustedPositions_def)
  with assms(2) declutter_withinBounds [of x] show ?thesis by simp
qed

lemmas curved_defs = adjustedPositions_def initialPositions_def organKeys_def entryFor_def
  getOrganDetail_def estimateLabelHeight_def resolveSide_def sideEntriesOf_def layoutSide_def
  sideSpacing_def clampInitial_def clampFinal_def overflowStep_def underflowStep_def shiftAll_def
  writeBack_def declutter_def pushDown_def pushUp_def clampCenterWithHeight_def
  toLowerCase_def

text \<open>
  Claim C4, as the code has it. In \<open>resolveSide\<close>, the solver of the curved version,
  when the bottom edge of the last label lies beyond \<open>MAX_BOUND\<close> after the forward
  pass, \<open>overflowStep\<close> moves every center up by the same \<open>overflow = bottom - MAX_BOUND\<close>
  and then runs the backward pass; the forward pass has already made every gap large
  enough, so the backward pass finds nothing to move and every center ends this step
  exactly \<open>overflow\<close> higher, with the spacing intact. Any side whose labels are each no
  taller than \<open>MAX_BOUND - MIN_BOUND = 84\<close>, three labels pushed past 92 among them,
  leaves \<open>resolveSide\<close>, and the whole memo, with every label's extent between
  \<open>MIN_BOUND = 8\<close> and \<open>MAX_BOUND = 92\<close>.
\<close>

theorem overflow_shift_uniform:
  "(es \<noteq> [] \<longrightarrow>
     (let placed = applyForwardSpacing gap es;
          bottom = centerY (last placed) + labelHeight (last placed) / 2;
          overflow = bottom - MAX_BOUND
      in bottom > MAX_BOUND \<longrightarrow>
           overflowStep gap placed = applyBackwardSpacing gap (shiftAll (- overflow) placed)
           \<and> map centerY (overflowStep gap placed) = map (\<lambda>e. centerY e - overflow) placed
           \<and> gapsOk gap (overflowStep gap placed)))
   \<and> ((\<forall>e \<in> set sideEntries. labelHeight e \<le> MAX_BOUND - MIN_BOUND) \<longrightarrow>
        (\<forall>e \<in> set (layoutSide sideEntries). withinBounds e))
   \<and> (\<forall>e \<in> set (adjustedPositions hl det mp).
        labelHeight e \<le> MAX_BOUND - MIN_BOUND \<longrightarrow> withinBounds e)
   \<and> MAX_BOUND = 92 \<and> MIN_BOUND = 8"
proof (intro conjI)
  show "es \<noteq> [] \<longrightarrow>
     (let placed = applyForwardSpacing gap es;
          bottom = centerY (last placed) + labelHeight (last placed) / 2;
          overflow = bottom - MAX_BOUND
      in bottom > MAX_BOUND \<longrightarrow>
           overflowStep gap placed = applyBackwardSpacing gap (shiftAll (- overflow) placed)
           \<and> map centerY (overflowStep gap placed) = map (\<lambda>e. centerY e - overflow) placed
           \<and> gapsOk gap (overflowStep gap placed))"
  proof (intro impI, unfold Let_def, intro impI)
    let ?placed = "applyForwardSpacing gap es"
    let ?overflow = "centerY (last ?placed) + labelHeight (last ?placed) / 2 - MAX_BOUND"
    assume over: "MAX_BOUND < centerY (last ?placed) + labelHeight (last ?placed) / 2"
    have step: "overflowStep gap ?placed = applyBackwardSpacing gap (shiftAll (- ?overflow) ?placed)"
      using over by (simp add: overflowStep_def Let_def)
    have same: "overflowStep gap ?placed = shiftAll (- ?overflow) ?placed"
      using over by (rule overflow_uniform)
    have ok: "gapsOk gap (shiftAll (- ?overflow) ?placed)"
      by (simp only: gapsOk_shiftAll gapsOk_forward)
    show "overflowStep gap ?placed = applyBackwardSpacing gap (shiftAll (- ?overflow) ?placed)
          \<and> map centerY (overflowStep gap ?placed) = map (\<lambda>e. centerY e - ?overflow) ?placed
          \<and> gapsOk gap (overflowStep gap ?placed)"
      using step ok unfolding same by (simp add: shiftAll_fields)
  qed
next
  show "(\<forall>e \<in> set sideEntries. labelHeight e \<le> MAX_BOUND - MIN_BOUND) \<longrightarrow>
        (\<forall>e \<in> set (layoutSide sideEntries). withinBounds e)"
  proof (intro impI ballI)
    fix e
    assume hs: "\<forall>e \<in> set sideEntries. labelHeight e \<le> MAX_BOUND - MIN_BOUND"
      and e: "e \<in> set (layoutSide sideEntries)"
    have "set (map labelHeight (layoutSide sideEntries)) = set (map labelHeight sideEntries)"
      by (simp add: layoutSide_heights)
    with e hs have "labelHeight e \<le> MAX_BOUND - MIN_BOUND" by force
    with e show "withinBounds e" by (rule layoutSide_withinBounds)
  qed
next
  show "\<forall>e \<in> set (adjustedPositions hl det mp).
        labelHeight e \<le> MAX_BOUND - MIN_BOUND \<longrightarrow> withinBounds e"
    using adjustedPositions_withinBounds by blast
qed (simp_all add: curved_consts)


theorem overflow_shift_uniform_witness:
  "map centerY (initialPositions (\<lambda>k. k = brain \<or> k = heart \<or> k = lungs) Map.empty
        [brain \<mapsto> \<lparr>p_left = 40, p_top = 80\<rparr>, heart \<mapsto> \<lparr>p_left = 40, p_top = 85\<rparr>, lungs \<mapsto> \<lparr>p_left = 40, p_top = 90\<rparr>] organKeys) = [80, 85, 88.75]
   \<and> (initialPositions (\<lambda>k. k = brain \<or> k = heart \<or> k = lungs) Map.empty
        [brain \<mapsto> \<lparr>p_left = 40, p_top = 80\<rparr>, heart \<mapsto> \<lparr>p_left = 40, p_top = 85\<rparr>, lungs \<mapsto> \<lparr>p_left = 40, p_top = 90\<rparr>] organKeys) \<noteq> []
   \<and> MAX_BOUND < centerY (last (applyForwardSpacing 6
      (initialPositions (\<lambda>k. k = brain \<or> k = heart \<or> k = lungs) Map.empty
        [brain \<mapsto> \<lparr>p_left = 40, p_top = 80\<rparr>, heart \<mapsto> \<lparr>p_left = 40, p_top = 85\<rparr>, lungs \<mapsto> \<lparr>p_left = 40, p_top = 90\<rparr>] organKeys))) + labelHeight (last (applyForwardSpacing 6
      (initialPositions (\<lambda>k. k = brain \<or> k = heart \<or> k = lungs) Map.empty
        [brain \<mapsto> \<lparr>p_left = 40, p_top = 80\<rparr>, heart \<mapsto> \<lparr>p_left = 40, p_top = 85\<rparr>, lungs \<mapsto> \<lparr>p_left = 40, p_top = 90\<rparr>] organKeys))) / 2
   \<and> map centerY (overflowStep 6 (applyForwardSpacing 6
      (initialPositions (\<lambda>k. k = brain \<or> k = heart \<or> k = lungs) Map.empty
        [brain \<mapsto> \<lparr>p_left = 40, p_top = 80\<rparr>, heart \<mapsto> \<lparr>p_left = 40, p_top = 85\<rparr>, lungs \<mapsto> \<lparr>p_left = 40, p_top = 90\<rparr>] organKeys))) = [63.75, 76.25, 88.75]
   \<and> list_all (\<lambda>e. labelHeight e \<le> MAX_BOUND - MIN_BOUND) (initialPositions (\<lambda>k. k = brain \<or> k = heart \<or> k = lungs) Map.empty
        [brain \<mapsto> \<lparr>p_left = 40, p_top = 80\<rparr>, heart \<mapsto> \<lparr>p_left = 40, p_top = 85\<rparr>, lungs \<mapsto> \<lparr>p_left = 40, p_top = 90\<rparr>] organKeys)
   \<and> list_all withinBounds (layoutSide (initialPositions (\<lambda>k. k = brain \<or> k = heart \<or> k = lungs) Map.empty
        [brain \<mapsto> \<lparr>p_left = 40, p_top = 80\<rparr>, heart \<mapsto> \<lparr>p_left = 40, p_top = 85\<rparr>, lungs \<mapsto> \<lparr>p_left = 40, p_top = 90\<rparr>] organKeys))
   \<and> map centerY (adjustedPositions (\<lambda>k. k = brain \<or> k = heart \<or> k = lungs) Map.empty
        [brain \<mapsto> \<lparr>p_left = 40, p_top = 80\<rparr>, heart \<mapsto> \<lparr>p_left = 40, p_top = 85\<rparr>, lungs \<mapsto> \<lparr>p_left = 40, p_top = 90\<rparr>]) = [63.75, 76.25, 82.5]
   \<and> list_all (\<lambda>e. labelHeight e \<le> MAX_BOUND - MIN_BOUND \<and> withinBounds e)
        (adjustedPositions (\<lambda>k. k = brain \<or> k = heart \<or> k = lungs) Map.empty
        [brain \<mapsto> \<lparr>p_left = 40, p_top = 80\<rparr>, heart \<mapsto> \<lparr>p_left = 40, p_top = 85\<rparr>, lungs \<mapsto> \<lparr>p_left = 40, p_top = 90\<rparr>])"
proof -
  let ?hl = "(\<lambda>k. k = brain \<or> k = heart \<or> k = lungs)"
  let ?mp = "[brain \<mapsto> \<lparr>p_left = 40, p_top = 80\<rparr>, heart \<mapsto> \<lparr>p_left = 40, p_top = 85\<rparr>, lungs \<mapsto> \<lparr>p_left = 40, p_top = 90\<rparr>]"
  let ?es = "initialPositions ?hl Map.empty ?mp organKeys"
  let ?placed = "applyForwardSpacing 6 ?es"
  let ?plan = "adjustedPositions ?hl Map.empty ?mp"
  have es: "?es =
      [\<lparr>organKey = brain, originalPosition = \<lparr>p_left = 40, p_top = 80\<rparr>,
        adjustedPosition = \<lparr>p_left = 40, p_top = 80, labelX = 76, labelY = 80\<rparr>,
        isRightSide = False, labelHeight = 6.5\<rparr>,
       \<lparr>organKey = heart, originalPosition = \<lparr>p_left = 40, p_top = 85\<rparr>,
        adjustedPosition = \<lparr>p_left = 40, p_top = 85, labelX = 76, labelY = 85\<rparr>,
        isRightSide = False, labelHeight = 6.5\<rparr>,
       \<lparr>organKey = lungs, originalPosition = \<lparr>p_left = 40, p_top = 90\<rparr>,
        adjustedPosition = \<lparr>p_left = 40, p_top = 90, labelX = 76, labelY = 88.75\<rparr>,
        isRightSide = False, labelHeight = 6.5\<rparr>]"
    by (simp add: curved_defs curved_consts Let_def)
  have placed: "map centerY ?placed = [80, 92.5, 105]" "map labelHeight ?placed = [6.5, 6.5, 6.5]"
    "last ?placed = ?placed ! 2" "length ?placed = 3"
    unfolding es by (simp_all add: pushDown_def Let_def setLabelY_def last_conv_nth)
  have nonempty: "?es \<noteq> []" unfolding es by simp
  have over: "MAX_BOUND < centerY (last ?placed) + labelHeight (last ?placed) / 2"
    unfolding es by (simp add: pushDown_def Let_def setLabelY_def MAX_BOUND_def)
  have heights: "\<forall>e \<in> set ?es. labelHeight e \<le> MAX_BOUND - MIN_BOUND"
    unfolding es by (simp add: curved_consts)
  have plan: "map centerY ?plan = [63.75, 76.25, 82.5]" "map labelHeight ?plan = [6.5, 6.5, 6.5]"
    by (simp_all add: curved_defs curved_consts Let_def)
  have planHeights: "\<forall>e \<in> set ?plan. labelHeight e \<le> MAX_BOUND - MIN_BOUND"
  proof
    fix e assume "e \<in> set ?plan"
    then have "labelHeight e \<in> set (map labelHeight ?plan)" by simp
    then show "labelHeight e \<le> MAX_BOUND - MIN_BOUND"
      unfolding plan by (simp add: curved_consts)
  qed
  note inst = overflow_shift_uniform [of ?es 6 ?es ?hl Map.empty ?mp]
  note first = inst [THEN conjunct1, rule_format, OF nonempty, unfolded Let_def, rule_format, OF over]
  from first
  have shifted: "map centerY (overflowStep 6 ?placed)
      = map (\<lambda>e. centerY e - (centerY (last ?placed) + labelHeight (last ?placed) / 2 - MAX_BOUND)) ?placed"
    by (rule conjunct2 [THEN conjunct1])
  have "map centerY (overflowStep 6 ?placed) = [63.75, 76.25, 88.75]"
    unfolding shifted unfolding es
    by (simp add: pushDown_def Let_def setLabelY_def MAX_BOUND_def)
  moreover from inst heights have "\<forall>e \<in> set (layoutSide ?es). withinBounds e" by blast
  moreover from inst planHeights
  have "\<forall>e \<in> set ?plan. labelHeight e \<le> MAX_BOUND - MIN_BOUND \<and> withinBounds e" by blast
  moreover have "map centerY ?es = [80, 85, 88.75]" unfolding es by simp
  ultimately show ?thesis using nonempty over heights plan(1)
    unfolding list_all_iff by blast
qed


lemma tall_height: "estimateLabelHeight (Some (replicate 1701 0x61)) = 169.7"
proof -
  have plain: "\<forall>c \<in> set (replicate 1701 (0x61 :: 16 word)). \<not> isWhitespace c"
    by (simp add: isWhitespace_def)
  have lines: "\<lceil>rat_of_nat 1701 / 34\<rceil> = 51" by (rule ceiling_unique) simp_all
  have "replicate 1701 (0x61 :: 16 word) \<noteq> []" by simp
  then show ?thesis
    using lines
    by (simp add: estimateLabelHeight_def Let_def collapse_plain [OF plain] trim_plain [OF plain]
          LABEL_HEIGHT_def)
qed

lemma tall_details:
  "getOrganDetail [''brain'' \<mapsto> replicate 1701 0x61] brain = Some (replicate 1701 0x61)"
  "getOrganDetail [''brain'' \<mapsto> replicate 1701 0x61] heart = None"
  "getOrganDetail [''brain'' \<mapsto> replicate 1701 0x61] lungs = None"
  by (simp_all add: getOrganDetail_def toLowerCase_def)


lemma none_height: "estimateLabelHeight None = 6.5"
  by (simp add: estimateLabelHeight_def LABEL_HEIGHT_def)

lemma tall_initial:
  "initialPositions (\<lambda>k. k = brain \<or> k = heart \<or> k = lungs) [''brain'' \<mapsto> replicate 1701 0x61]
     [brain \<mapsto> \<lparr>p_left = 40, p_top = 80\<rparr>, heart \<mapsto> \<lparr>p_left = 40, p_top = 85\<rparr>, lungs \<mapsto> \<lparr>p_left = 40, p_top = 90\<rparr>] organKeys
   = [\<lparr>organKey = brain, originalPosition = \<lparr>p_left = 40, p_top = 80\<rparr>,
        adjustedPosition = \<lparr>p_left = 40, p_top = 80, labelX = 76, labelY = 92.85\<rparr>,
        isRightSide = False, labelHeight = 169.7\<rparr>,
      \<lparr>organKey = heart, originalPosition = \<lparr>p_left = 40, p_top = 85\<rparr>,
        adjustedPosition = \<lparr>p_left = 40, p_top = 85, labelX = 76, labelY = 85\<rparr>,
        isRightSide = False, labelHeight = 6.5\<rparr>,
      \<lparr>organKey = lungs, originalPosition = \<lparr>p_left = 40, p_top = 90\<rparr>,
        adjustedPosition = \<lparr>p_left = 40, p_top = 90, labelX = 76, labelY = 88.75\<rparr>,
        isRightSide = False, labelHeight = 6.5\<rparr>]"
  by (simp add: initialPositions_def organKeys_def entryFor_def tall_details tall_height
        none_height clampCenterWithHeight_def curved_consts Let_def)

text \<open>
  The unamended claim speaks of the vertical layout solver of either version and of any
  three items. The grid solver does not shift uniformly: for three left-side markers at
  \<open>top\<close> 50, 90 and 92 the forward pass gives the centers 50, 90 and 101, an overflow of
  7.5 over \<open>maxCenter\<close>, and \<open>adjustSide\<close> returns 50, 82.5 and 101: only the second
  center has moved, and the last is still beyond the bound. In the curved version a
  label taller than the span cannot end within the bounds: with a detail of 1701 code
  units the first of three labels is 169.7 tall and its center ends at 92.85.
\<close>

theorem overflow_counterexample:
  "placeCenters []
        [\<lparr>g_organKey = brain, g_position = \<lparr>p_left = 40, p_top = 50\<rparr>\<rparr>,
         \<lparr>g_organKey = heart, g_position = \<lparr>p_left = 40, p_top = 90\<rparr>\<rparr>,
         \<lparr>g_organKey = lungs, g_position = \<lparr>p_left = 40, p_top = 92\<rparr>\<rparr>]
     = [50, 90, 101]
   \<and> maxCenter = 93.5
   \<and> map rowY (adjustSide
        [\<lparr>g_organKey = brain, g_position = \<lparr>p_left = 40, p_top = 50\<rparr>\<rparr>,
         \<lparr>g_organKey = heart, g_position = \<lparr>p_left = 40, p_top = 90\<rparr>\<rparr>,
         \<lparr>g_organKey = lungs, g_position = \<lparr>p_left = 40, p_top = 92\<rparr>\<rparr>] 73 False)
     = [50, 82.5, 101]
   \<and> map labelHeight (adjustedPositions (\<lambda>k. k = brain \<or> k = heart \<or> k = lungs) [''brain'' \<mapsto> replicate 1701 0x61]
        [brain \<mapsto> \<lparr>p_left = 40, p_top = 80\<rparr>, heart \<mapsto> \<lparr>p_left = 40, p_top = 85\<rparr>, lungs \<mapsto> \<lparr>p_left = 40, p_top = 90\<rparr>])
     = [169.7, 6.5, 6.5]
   \<and> map centerY (adjustedPositions (\<lambda>k. k = brain \<or> k = heart \<or> k = lungs) [''brain'' \<mapsto> replicate 1701 0x61]
        [brain \<mapsto> \<lparr>p_left = 40, p_top = 80\<rparr>, heart \<mapsto> \<lparr>p_left = 40, p_top = 85\<rparr>, lungs \<mapsto> \<lparr>p_left = 40, p_top = 90\<rparr>])
     = [92.85, 88.75, 82.5]
   \<and> \<not> (92.85 \<le> MAX_BOUND)"
proof (intro conjI)
  show "placeCenters []
        [\<lparr>g_organKey = brain, g_position = \<lparr>p_left = 40, p_top = 50\<rparr>\<rparr>,
         \<lparr>g_organKey = heart, g_position = \<lparr>p_left = 40, p_top = 90\<rparr>\<rparr>,
         \<lparr>g_organKey = lungs, g_position = \<lparr>p_left = 40, p_top = 92\<rparr>\<rparr>]
     = [50, 90, 101]"
    by code_simp
  show "maxCenter = 93.5" by (simp add: grid_consts)
  show "map rowY (adjustSide
        [\<lparr>g_organKey = brain, g_position = \<lparr>p_left = 40, p_top = 50\<rparr>\<rparr>,
         \<lparr>g_organKey = heart, g_position = \<lparr>p_left = 40, p_top = 90\<rparr>\<rparr>,
         \<lparr>g_organKey = lungs, g_position = \<lparr>p_left = 40, p_top = 92\<rparr>\<rparr>] 73 False)
     = [50, 82.5, 101]"
    by code_simp
  show "map labelHeight (adjustedPositions (\<lambda>k. k = brain \<or> k = heart \<or> k = lungs) [''brain'' \<mapsto> replicate 1701 0x61]
        [brain \<mapsto> \<lparr>p_left = 40, p_top = 80\<rparr>, heart \<mapsto> \<lparr>p_left = 40, p_top = 85\<rparr>, lungs \<mapsto> \<lparr>p_left = 40, p_top = 90\<rparr>])
     = [169.7, 6.5, 6.5]"
    unfolding adjustedPositions_def tall_initial by code_simp
  show "map centerY (adjustedPositions (\<lambda>k. k = brain \<or> k = heart \<or> k = lungs) [''brain'' \<mapsto> replicate 1701 0x61]
        [brain \<mapsto> \<lparr>p_left = 40, p_top = 80\<rparr>, heart \<mapsto> \<lparr>p_left = 40, p_top = 85\<rparr>, lungs \<mapsto> \<lparr>p_left = 40, p_top = 90\<rparr>])
     = [92.85, 88.75, 82.5]"
    unfolding adjustedPositions_def tall_initial by code_simp
  show "\<not> (92.85 \<le> MAX_BOUND)" by (simp add: MAX_BOUND_def)
qed

section \<open>Which regions reach the plan\<close>






















section \<open>The final loop of the curved memo\<close>

lemma declutter_step:
  "centerY (declutter x) =
     clampCenterWithHeight
       (if \<bar>centerY x - origTop x\<bar> < LABEL_HEIGHT
        then (if centerY x < origTop x then origTop x - LABEL_HEIGHT - 1
              else origTop x + LABEL_HEIGHT + 1)
        else centerY x)
       (labelHeight x)"
  by (simp add: declutter_def Let_def)

text \<open>
  Claim C5, as the code has it. The final loop compares the distance between a label's
  center and its marker's \<open>top\<close> with the constant \<open>LABEL_HEIGHT = 6.5\<close>, not with the
  label's own height. A closer label is set to \<open>top - 7.5\<close> when it lay above the
  marker and to \<open>top + 7.5\<close> otherwise, a distance of zero included, and every label is
  then clamped with its height. So each label of the plan is at least 6.5 away from its
  marker, or it sits at one of its two bound positions \<open>MIN_BOUND + height / 2\<close> and
  \<open>MAX_BOUND - height / 2\<close>.
\<close>

theorem declutter_distance_or_bound:
  "centerY (declutter x) =
     clampCenterWithHeight
       (if \<bar>centerY x - origTop x\<bar> < LABEL_HEIGHT
        then (if centerY x < origTop x then origTop x - LABEL_HEIGHT - 1
              else origTop x + LABEL_HEIGHT + 1)
        else centerY x)
       (labelHeight x)
   \<and> (\<forall>e \<in> set (adjustedPositions hl det mp).
        \<bar>centerY e - origTop e\<bar> \<ge> LABEL_HEIGHT
        \<or> centerY e = MIN_BOUND + labelHeight e / 2
        \<or> centerY e = MAX_BOUND - labelHeight e / 2)
   \<and> LABEL_HEIGHT = 6.5"
proof (intro conjI ballI)
  show "centerY (declutter x) =
     clampCenterWithHeight
       (if \<bar>centerY x - origTop x\<bar> < LABEL_HEIGHT
        then (if centerY x < origTop x then origTop x - LABEL_HEIGHT - 1
              else origTop x + LABEL_HEIGHT + 1)
        else centerY x)
       (labelHeight x)"
    by (rule declutter_step)
next
  fix e assume "e \<in> set (adjustedPositions hl det mp)"
  then obtain y where e: "e = declutter y" by (auto simp: adjustedPositions_def)
  from declutter_center [of y] obtain c where
    c: "LABEL_HEIGHT \<le> \<bar>c - origTop y\<bar>"
       "centerY (declutter y) = clampCenterWithHeight c (labelHeight y)" by blast
  from clamp_cases [of c "labelHeight y"] c e
  show "\<bar>centerY e - origTop e\<bar> \<ge> LABEL_HEIGHT
     \<or> centerY e = MIN_BOUND + labelHeight e / 2
     \<or> centerY e = MAX_BOUND - labelHeight e / 2"
    by auto
next
  show "LABEL_HEIGHT = 6.5" by (simp add: LABEL_HEIGHT_def)
qed

theorem declutter_distance_or_bound_witness:
  "adjustedPositions (\<lambda>k. k = brain) Map.empty [brain \<mapsto> \<lparr>p_left = 40, p_top = 50\<rparr>]
     = [\<lparr>organKey = brain, originalPosition = \<lparr>p_left = 40, p_top = 50\<rparr>,
         adjustedPosition = \<lparr>p_left = 40, p_top = 50, labelX = 76, labelY = 57.5\<rparr>,
         isRightSide = False, labelHeight = 6.5\<rparr>]
   \<and> (\<bar>(57.5 :: rat) - 50\<bar> \<ge> LABEL_HEIGHT
        \<or> (57.5 :: rat) = MIN_BOUND + 6.5 / 2
        \<or> (57.5 :: rat) = MAX_BOUND - 6.5 / 2)"
proof -
  let ?e = "\<lparr>organKey = brain, originalPosition = \<lparr>p_left = 40, p_top = 50\<rparr>,
         adjustedPosition = \<lparr>p_left = 40, p_top = 50, labelX = 76, labelY = 57.5\<rparr>,
         isRightSide = False, labelHeight = 6.5\<rparr>"
  let ?plan = "adjustedPositions (\<lambda>k. k = brain) Map.empty [brain \<mapsto> \<lparr>p_left = 40, p_top = 50\<rparr>]"
  have plan: "?plan = [?e]"
    by (simp add: curved_defs curved_consts Let_def setLabelY_def)
  then have "?e \<in> set ?plan" by simp
  with declutter_distance_or_bound [of ?e "\<lambda>k. k = brain" Map.empty "[brain \<mapsto> \<lparr>p_left = 40, p_top = 50\<rparr>]"]
  have "\<bar>centerY ?e - origTop ?e\<bar> \<ge> LABEL_HEIGHT
        \<or> centerY ?e = MIN_BOUND + labelHeight ?e / 2
        \<or> centerY ?e = MAX_BOUND - labelHeight ?e / 2" by blast
  with plan show ?thesis by simp
qed



text \<open>
  The unamended claim asks for a distance of at least the label's height for every item.
  A marker at \<open>top = 88.75\<close> gets its label at 88.75: the push to 96.25 is clamped back.
  A marker at \<open>top = 50\<close> with a one-line detail (height 9.7) gets its label at 57.5,
  which is 7.5 away.
\<close>

theorem declutter_counterexample:
  "map origTop (adjustedPositions (\<lambda>k. k = brain) Map.empty
       [brain \<mapsto> \<lparr>p_left = 40, p_top = 88.75\<rparr>]) = [88.75]
   \<and> map centerY (adjustedPositions (\<lambda>k. k = brain) Map.empty
       [brain \<mapsto> \<lparr>p_left = 40, p_top = 88.75\<rparr>]) = [88.75]
   \<and> map labelHeight (adjustedPositions (\<lambda>k. k = brain) Map.empty
       [brain \<mapsto> \<lparr>p_left = 40, p_top = 88.75\<rparr>]) = [6.5]
   \<and> \<not> \<bar>(88.75 :: rat) - 88.75\<bar> \<ge> 6.5
   \<and> map origTop (adjustedPositions (\<lambda>k. k = brain) [''brain'' \<mapsto> [0x41]]
       [brain \<mapsto> \<lparr>p_left = 40, p_top = 50\<rparr>]) = [50]
   \<and> map centerY (adjustedPositions (\<lambda>k. k = brain) [''brain'' \<mapsto> [0x41]]
       [brain \<mapsto> \<lparr>p_left = 40, p_top = 50\<rparr>]) = [57.5]
   \<and> map labelHeight (adjustedPositions (\<lambda>k. k = brain) [''brain'' \<mapsto> [0x41]]
       [brain \<mapsto> \<lparr>p_left = 40, p_top = 50\<rparr>]) = [9.7]
   \<and> \<not> \<bar>(57.5 :: rat) - 50\<bar> \<ge> 9.7"
proof (intro conjI)
  show "map origTop (adjustedPositions (\<lambda>k. k = brain) Map.empty
       [brain \<mapsto> \<lparr>p_left = 40, p_top = 88.75\<rparr>]) = [88.75]"
    by code_simp
  show "map centerY (adjustedPositions (\<lambda>k. k = brain) Map.empty
       [brain \<mapsto> \<lparr>p_left = 40, p_top = 88.75\<rparr>]) = [88.75]"
    by code_simp
  show "map labelHeight (adjustedPositions (\<lambda>k. k = brain) Map.empty
       [brain \<mapsto> \<lparr>p_left = 40, p_top = 88.75\<rparr>]) = [6.5]"
    by code_simp
  show "map origTop (adjustedPositions (\<lambda>k. k = brain) [''brain'' \<mapsto> [0x41]]
       [brain \<mapsto> \<lparr>p_left = 40, p_top = 50\<rparr>]) = [50]"
    by code_simp
  show "map centerY (adjustedPositions (\<lambda>k. k = brain) [''brain'' \<mapsto> [0x41]]
       [brain \<mapsto> \<lparr>p_left = 40, p_top = 50\<rparr>]) = [57.5]"
    by code_simp
  show "map labelHeight (adjustedPositions (\<lambda>k. k = brain) [''brain'' \<mapsto> [0x41]]
       [brain \<mapsto> \<lparr>p_left = 40, p_top = 50\<rparr>]) = [9.7]"
    by code_simp
qed simp_all


section \<open>Order of the labels on a side\<close>

lemma spaced_strict: "spaced cs \<Longrightarrow> i < j \<Longrightarrow> j < length cs \<Longrightarrow> cs ! i < cs ! j"
proof (induction j)
  case 0
  then show ?case by simp
next
  case (Suc j)
  from Suc.prems have step: "cs ! j + spacing \<le> cs ! Suc j" by (simp add: spaced_def)
  have pos: "0 < spacing" by (simp add: spacing_def cardHeight_def minVerticalGap_def)
  show ?case
  proof (cases "i = j")
    case True
    with step pos show ?thesis by simp
  next
    case False
    with Suc.prems have "i < j" "j < length cs" by simp_all
    with Suc.IH Suc.prems(1) have "cs ! i < cs ! j" by simp
    with step pos show ?thesis by simp
  qed
qed

lemma adjustSide_nth:
  assumes "i < length items"
  shows "organPosition (adjustSide items colX r ! i) = g_position (sortByTop items ! i)"
    and "rowY (adjustSide items colX r ! i) = solveCenters (sortByTop items) ! i"
    and "a_isRightSide (adjustSide items colX r ! i) = r"
    and "columnX (adjustSide items colX r ! i) = colX"
  using assms
  by (simp_all add: adjustSide_def Let_def length_solveCenters length_sortByTop)

lemma sorted_tops: "sorted (map (\<lambda>a. p_top (g_position a)) (sortByTop items))"
  by (simp add: sortByTop_def)

lemma adjustSide_order:
  assumes a: "a \<in> set (adjustSide items colX r)" and b: "b \<in> set (adjustSide items colX r)"
    and lt: "p_top (organPosition a) < p_top (organPosition b)"
  shows "rowY a < rowY b"
proof -
  let ?out = "adjustSide items colX r"
  let ?sorted = "sortByTop items"
  from a obtain i where i: "i < length ?out" "?out ! i = a" by (auto simp: in_set_conv_nth)
  from b obtain j where j: "j < length ?out" "?out ! j = b" by (auto simp: in_set_conv_nth)
  from i j have len: "i < length items" "j < length items" by (simp_all add: length_adjustSide)
  have tops: "p_top (organPosition a) = p_top (g_position (?sorted ! i))"
             "p_top (organPosition b) = p_top (g_position (?sorted ! j))"
    using adjustSide_nth(1) [OF len(1), of colX r] adjustSide_nth(1) [OF len(2), of colX r] i j
    by simp_all
  have "i < j"
  proof (rule ccontr)
    assume "\<not> i < j"
    then have "j \<le> i" by simp
    with sorted_tops [of items] len
    have "p_top (g_position (?sorted ! j)) \<le> p_top (g_position (?sorted ! i))"
      by (simp add: sorted_iff_nth_mono length_sortByTop)
    with lt tops show False by simp
  qed
  with spaced_solveCenters [of ?sorted] len
  have "solveCenters ?sorted ! i < solveCenters ?sorted ! j"
    by (intro spaced_strict) (simp_all add: length_solveCenters length_sortByTop)
  with adjustSide_nth(2) [OF len(1), of colX r] adjustSide_nth(2) [OF len(2), of colX r] i j
  show ?thesis by simp
qed

lemma adjustSide_sorted_strict:
  assumes "i < j" "j < length (adjustSide items colX r)"
  shows "p_top (organPosition (adjustSide items colX r ! i))
           \<le> p_top (organPosition (adjustSide items colX r ! j))"
    and "rowY (adjustSide items colX r ! i) < rowY (adjustSide items colX r ! j)"
proof -
  let ?sorted = "sortByTop items"
  from assms have len: "i < length items" "j < length items" by (simp_all add: length_adjustSide)
  from sorted_tops [of items] assms(1) len
  have "p_top (g_position (?sorted ! i)) \<le> p_top (g_position (?sorted ! j))"
    by (simp add: sorted_iff_nth_mono length_sortByTop)
  with adjustSide_nth(1) [OF len(1), of colX r] adjustSide_nth(1) [OF len(2), of colX r]
  show "p_top (organPosition (adjustSide items colX r ! i))
           \<le> p_top (organPosition (adjustSide items colX r ! j))"
    by simp
  from spaced_solveCenters [of ?sorted] assms(1) len
  have "solveCenters ?sorted ! i < solveCenters ?sorted ! j"
    by (intro spaced_strict) (simp_all add: length_solveCenters length_sortByTop)
  with adjustSide_nth(2) [OF len(1), of colX r] adjustSide_nth(2) [OF len(2), of colX r]
  show "rowY (adjustSide items colX r ! i) < rowY (adjustSide items colX r ! j)"
    by simp
qed

lemma adjustSide_side: "a \<in> set (adjustSide items colX r) \<Longrightarrow> a_isRightSide a = r"
  by (auto simp: in_set_conv_nth length_adjustSide adjustSide_nth(3))

text \<open>
  Claim C2, as the code has it. In the grid version the assignments of a side are
  listed by ascending source \<open>top\<close>, and their \<open>rowY\<close> strictly increases along the list.
  So of two items on the same side the one with the strictly smaller \<open>top\<close> gets the
  strictly smaller \<open>rowY\<close>. Items with equal \<open>top\<close> are not given equal centers; they
  follow each other in the sorted order like any other pair.
\<close>

theorem grid_order_preserved:
  "(\<forall>i j. i < j \<longrightarrow> j < length (adjustSide items colX r) \<longrightarrow>
      p_top (organPosition (adjustSide items colX r ! i))
        \<le> p_top (organPosition (adjustSide items colX r ! j))
      \<and> rowY (adjustSide items colX r ! i) < rowY (adjustSide items colX r ! j))
   \<and> (\<forall>a \<in> set (adjustSide items colX r). \<forall>b \<in> set (adjustSide items colX r).
      p_top (organPosition a) < p_top (organPosition b) \<longrightarrow> rowY a < rowY b)
   \<and> (\<forall>a \<in> set (gridPositions hl mp cp). \<forall>b \<in> set (gridPositions hl mp cp).
        a_isRightSide a = a_isRightSide b \<longrightarrow>
        p_top (organPosition a) < p_top (organPosition b) \<longrightarrow> rowY a < rowY b)"
proof (intro conjI ballI impI allI)
  fix i j
  assume "i < j" "j < length (adjustSide items colX r)"
  then show "p_top (organPosition (adjustSide items colX r ! i))
        \<le> p_top (organPosition (adjustSide items colX r ! j))"
    by (rule adjustSide_sorted_strict)
next
  fix i j
  assume "i < j" "j < length (adjustSide items colX r)"
  then show "rowY (adjustSide items colX r ! i) < rowY (adjustSide items colX r ! j)"
    by (rule adjustSide_sorted_strict)
next
  fix a b
  assume "a \<in> set (adjustSide items colX r)" "b \<in> set (adjustSide items colX r)"
    "p_top (organPosition a) < p_top (organPosition b)"
  then show "rowY a < rowY b" by (rule adjustSide_order)
next
  fix a b
  let ?hs = "highlightedItems hl mp organKeys"
  let ?left = "adjustSide (filter (\<lambda>item. p_left (g_position item) \<le> 50) ?hs) (leftColumnX cp) False"
  let ?right = "adjustSide (filter (\<lambda>item. p_left (g_position item) > 50) ?hs) (rightColumnX cp) True"
  assume a: "a \<in> set (gridPositions hl mp cp)" and b: "b \<in> set (gridPositions hl mp cp)"
    and side: "a_isRightSide a = a_isRightSide b"
    and lt: "p_top (organPosition a) < p_top (organPosition b)"
  have plan: "set (gridPositions hl mp cp) = set ?left \<union> set ?right"
    by (simp add: gridPositions_def Let_def)
  show "rowY a < rowY b"
  proof (cases "a_isRightSide a")
    case True
    with a plan have "a \<in> set ?right" using adjustSide_side [of a _ _ False] by auto
    moreover from True side b plan have "b \<in> set ?right"
      using adjustSide_side [of b _ _ False] by auto
    ultimately show ?thesis using lt by (rule adjustSide_order)
  next
    case False
    with a plan have "a \<in> set ?left" using adjustSide_side [of a _ _ True] by auto
    moreover from False side b plan have "b \<in> set ?left"
      using adjustSide_side [of b _ _ True] by auto
    ultimately show ?thesis using lt by (rule adjustSide_order)
  qed
qed


theorem grid_order_preserved_witness:
  "adjustSide [\<lparr>g_organKey = brain, g_position = \<lparr>p_left = 40, p_top = 10\<rparr>\<rparr>,
               \<lparr>g_organKey = heart, g_position = \<lparr>p_left = 40, p_top = 12\<rparr>\<rparr>] 73 False
     = [\<lparr>a_organKey = brain, organPosition = \<lparr>p_left = 40, p_top = 10\<rparr>,
       a_isRightSide = False, columnX = 73, rowY = 10\<rparr>,
        \<lparr>a_organKey = heart, organPosition = \<lparr>p_left = 40, p_top = 12\<rparr>,
       a_isRightSide = False, columnX = 73, rowY = 21\<rparr>]
   \<and> gridPositions (\<lambda>k. k = brain \<or> k = heart)
        [brain \<mapsto> \<lparr>p_left = 40, p_top = 10\<rparr>, heart \<mapsto> \<lparr>p_left = 40, p_top = 12\<rparr>] None
     = [\<lparr>a_organKey = brain, organPosition = \<lparr>p_left = 40, p_top = 10\<rparr>,
       a_isRightSide = False, columnX = 73, rowY = 10\<rparr>,
        \<lparr>a_organKey = heart, organPosition = \<lparr>p_left = 40, p_top = 12\<rparr>,
       a_isRightSide = False, columnX = 73, rowY = 21\<rparr>]
   \<and> a_isRightSide \<lparr>a_organKey = brain, organPosition = \<lparr>p_left = 40, p_top = 10\<rparr>,
       a_isRightSide = False, columnX = 73, rowY = 10\<rparr>
       = a_isRightSide \<lparr>a_organKey = heart, organPosition = \<lparr>p_left = 40, p_top = 12\<rparr>,
       a_isRightSide = False, columnX = 73, rowY = 21\<rparr>
   \<and> p_top (organPosition \<lparr>a_organKey = brain, organPosition = \<lparr>p_left = 40, p_top = 10\<rparr>,
       a_isRightSide = False, columnX = 73, rowY = 10\<rparr>)
       < p_top (organPosition \<lparr>a_organKey = heart, organPosition = \<lparr>p_left = 40, p_top = 12\<rparr>,
       a_isRightSide = False, columnX = 73, rowY = 21\<rparr>)
   \<and> rowY \<lparr>a_organKey = brain, organPosition = \<lparr>p_left = 40, p_top = 10\<rparr>,
       a_isRightSide = False, columnX = 73, rowY = 10\<rparr>
       < rowY \<lparr>a_organKey = heart, organPosition = \<lparr>p_left = 40, p_top = 12\<rparr>,
       a_isRightSide = False, columnX = 73, rowY = 21\<rparr>"
proof -
  let ?a = "\<lparr>a_organKey = brain, organPosition = \<lparr>p_left = 40, p_top = 10\<rparr>,
       a_isRightSide = False, columnX = 73, rowY = 10\<rparr>"
  let ?b = "\<lparr>a_organKey = heart, organPosition = \<lparr>p_left = 40, p_top = 12\<rparr>,
       a_isRightSide = False, columnX = 73, rowY = 21\<rparr>"
  let ?items = "[\<lparr>g_organKey = brain, g_position = \<lparr>p_left = 40, p_top = 10\<rparr>\<rparr>,
                 \<lparr>g_organKey = heart, g_position = \<lparr>p_left = 40, p_top = 12\<rparr>\<rparr>]"
  let ?hl = "(\<lambda>k. k = brain \<or> k = heart)"
  let ?mp = "[brain \<mapsto> \<lparr>p_left = 40, p_top = 10\<rparr>, heart \<mapsto> \<lparr>p_left = 40, p_top = 12\<rparr>]"
  have side: "adjustSide ?items 73 False = [?a, ?b]"
    by (simp add: adjustSide_def sortByTop_def solveCenters_def grid_consts)
  have plan: "gridPositions ?hl ?mp None = [?a, ?b]"
    by (simp add: gridPositions_def highlightedItems_def organKeys_def leftColumnX_def
          rightColumnX_def leftNameColumnX_def adjustSide_def sortByTop_def solveCenters_def
          grid_consts)
  have same: "a_isRightSide ?a = a_isRightSide ?b" by simp
  have above: "p_top (organPosition ?a) < p_top (organPosition ?b)" by simp
  note inst = grid_order_preserved [of ?items 73 False ?hl ?mp None]
  from side have "?a \<in> set (adjustSide ?items 73 False)" "?b \<in> set (adjustSide ?items 73 False)"
    by simp_all
  with inst above have "rowY ?a < rowY ?b" by blast
  moreover from inst side have "rowY (adjustSide ?items 73 False ! 0) < rowY (adjustSide ?items 73 False ! 1)"
    by simp
  moreover from plan have "?a \<in> set (gridPositions ?hl ?mp None)"
    "?b \<in> set (gridPositions ?hl ?mp None)" by simp_all
  with inst same above have "rowY ?a < rowY ?b" by blast
  ultimately show ?thesis using side plan same above by blast
qed

text \<open>
  The unamended claim reads \<open>preferredA \<le> preferredB \<longrightarrow> labelA \<le> labelB\<close> for every plan.
  Two grid items with the same \<open>top = 50\<close> get the centers 50 and 61, so the implication
  fails from the second to the first. In the curved version two left-side markers at
  \<open>top\<close> 76.25 and 88.875 get the labels 83.75 and 81.375: the final loop pushes the
  first down and the second up, past each other.
\<close>

theorem order_counterexample:
  "map (\<lambda>a. p_top (organPosition a))
      (gridPositions (\<lambda>k. k = brain \<or> k = heart)
         [brain \<mapsto> \<lparr>p_left = 40, p_top = 50\<rparr>, heart \<mapsto> \<lparr>p_left = 40, p_top = 50\<rparr>] None)
     = [50, 50]
   \<and> map rowY
      (gridPositions (\<lambda>k. k = brain \<or> k = heart)
         [brain \<mapsto> \<lparr>p_left = 40, p_top = 50\<rparr>, heart \<mapsto> \<lparr>p_left = 40, p_top = 50\<rparr>] None)
     = [50, 61]
   \<and> map a_isRightSide
      (gridPositions (\<lambda>k. k = brain \<or> k = heart)
         [brain \<mapsto> \<lparr>p_left = 40, p_top = 50\<rparr>, heart \<mapsto> \<lparr>p_left = 40, p_top = 50\<rparr>] None)
     = [False, False]
   \<and> map origTop
      (adjustedPositions (\<lambda>k. k = brain \<or> k = heart) Map.empty
         [brain \<mapsto> \<lparr>p_left = 40, p_top = 76.25\<rparr>, heart \<mapsto> \<lparr>p_left = 40, p_top = 88.875\<rparr>])
     = [76.25, 88.875]
   \<and> map centerY
      (adjustedPositions (\<lambda>k. k = brain \<or> k = heart) Map.empty
         [brain \<mapsto> \<lparr>p_left = 40, p_top = 76.25\<rparr>, heart \<mapsto> \<lparr>p_left = 40, p_top = 88.875\<rparr>])
     = [83.75, 81.375]
   \<and> map isRightSide
      (adjustedPositions (\<lambda>k. k = brain \<or> k = heart) Map.empty
         [brain \<mapsto> \<lparr>p_left = 40, p_top = 76.25\<rparr>, heart \<mapsto> \<lparr>p_left = 40, p_top = 88.875\<rparr>])
     = [False, False]"
proof (intro conjI)
  show "map (\<lambda>a. p_top (organPosition a))
      (gridPositions (\<lambda>k. k = brain \<or> k = heart)
         [brain \<mapsto> \<lparr>p_left = 40, p_top = 50\<rparr>, heart \<mapsto> \<lparr>p_left = 40, p_top = 50\<rparr>] None)
     = [50, 50]"
    by code_simp
  show "map rowY
      (gridPositions (\<lambda>k. k = brain \<or> k = heart)
         [brain \<mapsto> \<lparr>p_left = 40, p_top = 50\<rparr>, heart \<mapsto> \<lparr>p_left = 40, p_top = 50\<rparr>] None)
     = [50, 61]"
    by code_simp
  show "map a_isRightSide
      (gridPositions (\<lambda>k. k = brain \<or> k = heart)
         [brain \<mapsto> \<lparr>p_left = 40, p_top = 50\<rparr>, heart \<mapsto> \<lparr>p_left = 40, p_top = 50\<rparr>] None)
     = [False, False]"
    by code_simp
  show "map origTop
      (adjustedPositions (\<lambda>k. k = brain \<or> k = heart) Map.empty
         [brain \<mapsto> \<lparr>p_left = 40, p_top = 76.25\<rparr>, heart \<mapsto> \<lparr>p_left = 40, p_top = 88.875\<rparr>])
     = [76.25, 88.875]"
    by code_simp
  show "map centerY
      (adjustedPositions (\<lambda>k. k = brain \<or> k = heart) Map.empty
         [brain \<mapsto> \<lparr>p_left = 40, p_top = 76.25\<rparr>, heart \<mapsto> \<lparr>p_left = 40, p_top = 88.875\<rparr>])
     = [83.75, 81.375]"
    by code_simp
  show "map isRightSide
      (adjustedPositions (\<lambda>k. k = brain \<or> k = heart) Map.empty
         [brain \<mapsto> \<lparr>p_left = 40, p_top = 76.25\<rparr>, heart \<mapsto> \<lparr>p_left = 40, p_top = 88.875\<rparr>])
     = [False, False]"
    by code_simp
qed


section \<open>Connectors\<close>

lemma frame_setLabelY [simp]: "frame (setLabelY e v) = frame e"
  by (simp add: frame_def)

lemma frame_pushDown [simp]: "frame (pushDown gap prev current) = frame current"
  by (simp add: pushDown_def Let_def)

lemma frame_pushUp [simp]: "frame (pushUp gap nxt current) = frame current"
  by (simp add: pushUp_def Let_def)

lemma frame_declutter [simp]: "frame (declutter e) = frame e"
  by (simp add: declutter_def Let_def)

lemma frame_forward [simp]: "map frame (applyForwardSpacing gap es) = map frame es"
  by (induction gap es rule: applyForwardSpacing.induct) simp_all

lemma frame_backward [simp]: "map frame (applyBackwardSpacing gap es) = map frame es"
proof (induction es)
  case Nil
  then show ?case by simp
next
  case (Cons x xs)
  show ?case
  proof (cases "applyBackwardSpacing gap xs")
    case Nil
    then have "xs = []" using length_backward [of gap xs] by simp
    then show ?thesis by simp
  next
    case (Cons n below)
    with Cons.IH have "map frame xs = frame n # map frame below" by simp
    with Cons show ?thesis by simp
  qed
qed

lemma frame_shiftAll [simp]: "map frame (shiftAll d es) = map frame es"
  by (simp add: shiftAll_def comp_def)

lemma frame_layoutSide: "map frame (layoutSide es) = map frame es"
  by (simp add: layoutSide_def Let_def clampFinal_def clampInitial_def overflowStep_def
        underflowStep_def comp_def)

lemma writeBack_member: "e \<in> set (writeBack solved ps) \<Longrightarrow> e \<in> set solved \<or> e \<in> set ps"
proof -
  assume "e \<in> set (writeBack solved ps)"
  then obtain p where p: "p \<in> set ps"
      "e = (case find (\<lambda>s. organKey s = organKey p) solved of Some s \<Rightarrow> s | None \<Rightarrow> p)"
    by (auto simp: writeBack_def)
  show ?thesis
  proof (cases "find (\<lambda>s. organKey s = organKey p) solved")
    case None
    with p show ?thesis by simp
  next
    case (Some s)
    then have "s \<in> set solved" unfolding find_Some_iff by auto
    with Some p show ?thesis by simp
  qed
qed

lemma frame_resolveSide:
  assumes "e \<in> set (resolveSide r ps)"
  shows "frame e \<in> frame ` set ps"
proof (cases "length (sideEntriesOf r ps) = 0")
  case True
  with assms show ?thesis by (simp add: resolveSide_def)
next
  case False
  with assms have "e \<in> set (writeBack (layoutSide (sideEntriesOf r ps)) ps)"
    by (simp add: resolveSide_def)
  then consider "e \<in> set (layoutSide (sideEntriesOf r ps))" | "e \<in> set ps"
    using writeBack_member by blast
  then show ?thesis
  proof cases
    case 1
    then have "frame e \<in> set (map frame (layoutSide (sideEntriesOf r ps)))" by simp
    then have "frame e \<in> frame ` set (sideEntriesOf r ps)"
      by (simp only: frame_layoutSide set_map)
    then show ?thesis by (auto simp: sideEntriesOf_def)
  next
    case 2
    then show ?thesis by simp
  qed
qed

lemma frame_adjustedPositions:
  assumes "e \<in> set (adjustedPositions hl det mp)"
  shows "\<exists>k pos. hl k \<and> mp k = Some pos
           \<and> frame e = frame \<lparr>organKey = k, originalPosition = pos,
               adjustedPosition = \<lparr>p_left = p_left pos, p_top = p_top pos,
                 labelX = (if p_left pos > 55 then p_left pos - 36 else p_left pos + 36),
                 labelY = 0\<rparr>,
               isRightSide = (p_left pos > 55),
               labelHeight = estimateLabelHeight (getOrganDetail det k)\<rparr>"
proof -
  let ?init = "initialPositions hl det mp organKeys"
  from assms obtain x where x: "x \<in> set (resolveSide False (resolveSide True ?init))" "e = declutter x"
    by (auto simp: adjustedPositions_def)
  from frame_resolveSide [OF x(1)] obtain y where
    y: "y \<in> set (resolveSide True ?init)" "frame x = frame y" by auto
  from frame_resolveSide [OF y(1)] obtain z where
    z: "z \<in> set ?init" "frame y = frame z" by auto
  from z(1) obtain k where k: "z \<in> set (entryFor hl det mp k)"
    by (auto simp: initialPositions_def)
  then have hk: "hl k" by (auto simp: entryFor_def split: if_splits)
  from k obtain pos where mk: "mp k = Some pos"
    by (cases "mp k") (auto simp: entryFor_def split: if_splits)
  note pos = hk mk
  with k have "frame z = frame \<lparr>organKey = k, originalPosition = pos,
               adjustedPosition = \<lparr>p_left = p_left pos, p_top = p_top pos,
                 labelX = (if p_left pos > 55 then p_left pos - 36 else p_left pos + 36),
                 labelY = 0\<rparr>,
               isRightSide = (p_left pos > 55),
               labelHeight = estimateLabelHeight (getOrganDetail det k)\<rparr>"
    by (simp add: entryFor_def Let_def frame_def setLabelY_def)
  with x y z pos show ?thesis by auto
qed

lemma entry_shape:
  assumes "e \<in> set (adjustedPositions hl det mp)"
  shows "p_left (adjustedPosition e) = p_left (originalPosition e)"
    and "p_top (adjustedPosition e) = p_top (originalPosition e)"
    and "isRightSide e = (p_left (originalPosition e) > 55)"
    and "labelX (adjustedPosition e)
           = (if isRightSide e then p_left (originalPosition e) - 36
              else p_left (originalPosition e) + 36)"
proof -
  from frame_adjustedPositions [OF assms] obtain k pos where
    f: "frame e = frame \<lparr>organKey = k, originalPosition = pos,
               adjustedPosition = \<lparr>p_left = p_left pos, p_top = p_top pos,
                 labelX = (if p_left pos > 55 then p_left pos - 36 else p_left pos + 36),
                 labelY = 0\<rparr>,
               isRightSide = (p_left pos > 55),
               labelHeight = estimateLabelHeight (getOrganDetail det k)\<rparr>" by blast
  have a: "p_left (adjustedPosition e) = p_left (adjustedPosition (frame e))"
    "p_top (adjustedPosition e) = p_top (adjustedPosition (frame e))"
    "labelX (adjustedPosition e) = labelX (adjustedPosition (frame e))"
    "isRightSide e = isRightSide (frame e)"
    "originalPosition e = originalPosition (frame e)"
    by (simp_all add: frame_def)
  show "p_left (adjustedPosition e) = p_left (originalPosition e)"
    and "p_top (adjustedPosition e) = p_top (originalPosition e)"
    and "isRightSide e = (p_left (originalPosition e) > 55)"
    and "labelX (adjustedPosition e)
           = (if isRightSide e then p_left (originalPosition e) - 36
              else p_left (originalPosition e) + 36)"
    unfolding a f by (simp_all add: frame_def setLabelY_def)
qed

lemma adjustSide_source:
  assumes "a \<in> set (adjustSide items colX r)"
  shows "\<exists>item \<in> set items. organPosition a = g_position item"
    and "a_isRightSide a = r" and "columnX a = colX"
proof -
  from assms obtain i where i: "i < length items" "adjustSide items colX r ! i = a"
    by (auto simp: in_set_conv_nth length_adjustSide)
  from i have "sortByTop items ! i \<in> set (sortByTop items)"
    by (simp add: length_sortByTop)
  then have "sortByTop items ! i \<in> set items" by (simp add: sortByTop_def)
  with adjustSide_nth(1) [OF i(1), of colX r] i(2)
  show "\<exists>item \<in> set items. organPosition a = g_position item" by auto
  from adjustSide_nth(3,4) [OF i(1), of colX r] i(2)
  show "a_isRightSide a = r" and "columnX a = colX" by simp_all
qed

lemma assignment_shape:
  assumes "a \<in> set (gridPositions hl mp cp)"
  shows "a_isRightSide a = (p_left (organPosition a) > 50)"
    and "columnX a = (if a_isRightSide a then rightColumnX cp else leftColumnX cp)"
proof -
  let ?hs = "highlightedItems hl mp organKeys"
  let ?L = "filter (\<lambda>item. p_left (g_position item) \<le> 50) ?hs"
  let ?R = "filter (\<lambda>item. p_left (g_position item) > 50) ?hs"
  from assms consider "a \<in> set (adjustSide ?L (leftColumnX cp) False)"
    | "a \<in> set (adjustSide ?R (rightColumnX cp) True)"
    by (auto simp: gridPositions_def Let_def)
  then have "a_isRightSide a = (p_left (organPosition a) > 50)
     \<and> columnX a = (if a_isRightSide a then rightColumnX cp else leftColumnX cp)"
  proof cases
    case 1
    from adjustSide_source [OF 1] show ?thesis by auto
  next
    case 2
    from adjustSide_source [OF 2] show ?thesis by auto
  qed
  then show "a_isRightSide a = (p_left (organPosition a) > 50)"
    and "columnX a = (if a_isRightSide a then rightColumnX cp else leftColumnX cp)"
    by simp_all
qed

text \<open>
  Claim C9, as the code has it. Each version draws every connector in one style,
  between the marker (the source point) and the label's anchor at the solved center.
  \<^item> Curved version: the anchor's \<open>x\<close> is the marker's \<open>x\<close> minus 36 for a marker right
    of 55 and plus 36 otherwise. The path starts at the marker and is a quadratic curve
    to the anchor; its control point is the midpoint of the two, moved by 8 in \<open>x\<close>
    toward the anchor's side.
  \<^item> Grid version: the anchor's \<open>x\<close> is the column of the side (the right column for a
    marker right of 50). The path starts at the anchor, runs horizontally at the
    label's \<open>y\<close> to the \<open>x\<close> halfway to the marker, and from there straight to the marker.
\<close>

theorem connector_paths:
  "(\<forall>e \<in> set (adjustedPositions hl det mp).
      (let sx = p_left (originalPosition e);
           sy = p_top (originalPosition e);
           lx = (if isRightSide e then sx - 36 else sx + 36);
           ly = centerY e
       in isRightSide e = (sx > 55)
          \<and> curvedPath (adjustedPosition e) (isRightSide e)
              = [MoveTo sx sy,
                 QuadTo ((sx + lx) / 2 + (if isRightSide e then - 8 else 8)) ((sy + ly) / 2) lx ly]))
   \<and> (\<forall>a \<in> set (gridPositions hl mp cp).
      (let ox = p_left (organPosition a);
           oy = p_top (organPosition a);
           ax = (if a_isRightSide a then rightColumnX cp else leftColumnX cp)
       in a_isRightSide a = (ox > 50)
          \<and> elbowPath (organPosition a) (columnX a) (rowY a)
              = [MoveTo ax (rowY a), LineTo ((ox + ax) / 2) (rowY a), LineTo ox oy]))"
proof (intro conjI ballI)
  fix e assume e: "e \<in> set (adjustedPositions hl det mp)"
  from entry_shape [OF e] show
    "let sx = p_left (originalPosition e);
         sy = p_top (originalPosition e);
         lx = (if isRightSide e then sx - 36 else sx + 36);
         ly = centerY e
     in isRightSide e = (sx > 55)
        \<and> curvedPath (adjustedPosition e) (isRightSide e)
            = [MoveTo sx sy,
               QuadTo ((sx + lx) / 2 + (if isRightSide e then - 8 else 8)) ((sy + ly) / 2) lx ly]"
    by (simp add: curvedPath_def Let_def)
next
  fix a assume a: "a \<in> set (gridPositions hl mp cp)"
  from assignment_shape [OF a] show
    "let ox = p_left (organPosition a);
         oy = p_top (organPosition a);
         ax = (if a_isRightSide a then rightColumnX cp else leftColumnX cp)
     in a_isRightSide a = (ox > 50)
        \<and> elbowPath (organPosition a) (columnX a) (rowY a)
            = [MoveTo ax (rowY a), LineTo ((ox + ax) / 2) (rowY a), LineTo ox oy]"
    by (simp add: elbowPath_def Let_def)
qed


theorem connector_paths_witness:
  "adjustedPositions (\<lambda>k. k = brain) Map.empty [brain \<mapsto> \<lparr>p_left = 40, p_top = 50\<rparr>]
     = [\<lparr>organKey = brain, originalPosition = \<lparr>p_left = 40, p_top = 50\<rparr>,
       adjustedPosition = \<lparr>p_left = 40, p_top = 50, labelX = 76, labelY = 57.5\<rparr>,
       isRightSide = False, labelHeight = 6.5\<rparr>]
   \<and> curvedPath (adjustedPosition \<lparr>organKey = brain, originalPosition = \<lparr>p_left = 40, p_top = 50\<rparr>,
       adjustedPosition = \<lparr>p_left = 40, p_top = 50, labelX = 76, labelY = 57.5\<rparr>,
       isRightSide = False, labelHeight = 6.5\<rparr>) False
     = [MoveTo 40 50, QuadTo 66 53.75 76 57.5]
   \<and> gridPositions (\<lambda>k. k = brain) [brain \<mapsto> \<lparr>p_left = 40, p_top = 2\<rparr>] None
     = [\<lparr>a_organKey = brain, organPosition = \<lparr>p_left = 40, p_top = 2\<rparr>,
       a_isRightSide = False, columnX = 73, rowY = 6.5\<rparr>]
   \<and> elbowPath \<lparr>p_left = 40, p_top = 2\<rparr> 73 6.5
     = [MoveTo 73 6.5, LineTo 56.5 6.5, LineTo 40 2]"
proof -
  let ?e = "\<lparr>organKey = brain, originalPosition = \<lparr>p_left = 40, p_top = 50\<rparr>,
       adjustedPosition = \<lparr>p_left = 40, p_top = 50, labelX = 76, labelY = 57.5\<rparr>,
       isRightSide = False, labelHeight = 6.5\<rparr>"
  let ?a = "\<lparr>a_organKey = brain, organPosition = \<lparr>p_left = 40, p_top = 2\<rparr>,
       a_isRightSide = False, columnX = 73, rowY = 6.5\<rparr>"
  let ?mp = "[brain \<mapsto> \<lparr>p_left = 40, p_top = 50\<rparr>]"
  let ?gmp = "[brain \<mapsto> \<lparr>p_left = 40, p_top = 2\<rparr>]"
  have plan: "adjustedPositions (\<lambda>k. k = brain) Map.empty ?mp = [?e]"
    by (simp add: curved_defs curved_consts Let_def setLabelY_def)
  have grid: "gridPositions (\<lambda>k. k = brain) ?gmp None = [?a]"
    by (simp add: gridPositions_def highlightedItems_def organKeys_def leftColumnX_def
          rightColumnX_def leftNameColumnX_def adjustSide_def sortByTop_def solveCenters_def
          grid_consts)
  note inst = connector_paths [of "\<lambda>k. k = brain" Map.empty ?mp None]
  note ginst = connector_paths [of "\<lambda>k. k = brain" Map.empty ?gmp None]
  from plan have "?e \<in> set (adjustedPositions (\<lambda>k. k = brain) Map.empty ?mp)" by simp
  with inst have
    "let sx = p_left (originalPosition ?e);
         sy = p_top (originalPosition ?e);
         lx = (if isRightSide ?e then sx - 36 else sx + 36);
         ly = centerY ?e
     in isRightSide ?e = (sx > 55)
        \<and> curvedPath (adjustedPosition ?e) (isRightSide ?e)
            = [MoveTo sx sy,
               QuadTo ((sx + lx) / 2 + (if isRightSide ?e then - 8 else 8)) ((sy + ly) / 2) lx ly]"
    by blast
  then have curve: "curvedPath (adjustedPosition ?e) False = [MoveTo 40 50, QuadTo 66 53.75 76 57.5]"
    by (simp add: Let_def)
  from grid have "?a \<in> set (gridPositions (\<lambda>k. k = brain) ?gmp None)" by simp
  with ginst have
    "let ox = p_left (organPosition ?a);
         oy = p_top (organPosition ?a);
         ax = (if a_isRightSide ?a then rightColumnX None else leftColumnX None)
     in a_isRightSide ?a = (ox > 50)
        \<and> elbowPath (organPosition ?a) (columnX ?a) (rowY ?a)
            = [MoveTo ax (rowY ?a), LineTo ((ox + ax) / 2) (rowY ?a), LineTo ox oy]"
    by blast
  then have elbow: "elbowPath \<lparr>p_left = 40, p_top = 2\<rparr> 73 6.5
     = [MoveTo 73 6.5, LineTo 56.5 6.5, LineTo 40 2]"
    by (simp add: Let_def leftColumnX_def leftNameColumnX_def)
  from plan curve grid elbow show ?thesis by blast
qed

text \<open>
  The unamended claim has every path start at the anchor, calls the anchor's \<open>x\<close> a
  column, and has the elbow go vertical first. The elbow of a marker at \<open>(40, 2)\<close> runs
  from \<open>(73, 6.5)\<close> to \<open>(56.5, 6.5)\<close>: a horizontal segment. The curve of a marker at
  \<open>(40, 50)\<close> starts at the marker and ends at the anchor \<open>(76, 57.5)\<close>. Two left-side
  markers at \<open>x\<close> 40 and 45 have their anchors at \<open>x\<close> 76 and 81.
\<close>

theorem connector_counterexample:
  "elbowConnectors (\<lambda>k. k = brain) [brain \<mapsto> \<lparr>p_left = 40, p_top = 2\<rparr>] None
     = [[MoveTo 73 6.5, LineTo 56.5 6.5, LineTo 40 2]]
   \<and> (73 :: rat) \<noteq> 56.5
   \<and> curvedConnectors (\<lambda>k. k = brain) Map.empty [brain \<mapsto> \<lparr>p_left = 40, p_top = 50\<rparr>]
     = [[MoveTo 40 50, QuadTo 66 53.75 76 57.5]]
   \<and> map (\<lambda>e. labelX (adjustedPosition e))
        (adjustedPositions (\<lambda>k. k = brain \<or> k = heart) Map.empty
           [brain \<mapsto> \<lparr>p_left = 40, p_top = 20\<rparr>, heart \<mapsto> \<lparr>p_left = 45, p_top = 60\<rparr>])
     = [76, 81]
   \<and> map isRightSide
        (adjustedPositions (\<lambda>k. k = brain \<or> k = heart) Map.empty
           [brain \<mapsto> \<lparr>p_left = 40, p_top = 20\<rparr>, heart \<mapsto> \<lparr>p_left = 45, p_top = 60\<rparr>])
     = [False, False]"
proof (intro conjI)
  show "elbowConnectors (\<lambda>k. k = brain) [brain \<mapsto> \<lparr>p_left = 40, p_top = 2\<rparr>] None
     = [[MoveTo 73 6.5, LineTo 56.5 6.5, LineTo 40 2]]"
    by code_simp
  show "curvedConnectors (\<lambda>k. k = brain) Map.empty [brain \<mapsto> \<lparr>p_left = 40, p_top = 50\<rparr>]
     = [[MoveTo 40 50, QuadTo 66 53.75 76 57.5]]"
    by code_simp
  show "map (\<lambda>e. labelX (adjustedPosition e))
        (adjustedPositions (\<lambda>k. k = brain \<or> k = heart) Map.empty
           [brain \<mapsto> \<lparr>p_left = 40, p_top = 20\<rparr>, heart \<mapsto> \<lparr>p_left = 45, p_top = 60\<rparr>])
     = [76, 81]"
    by code_simp
  show "map isRightSide
        (adjustedPositions (\<lambda>k. k = brain \<or> k = heart) Map.empty
           [brain \<mapsto> \<lparr>p_left = 40, p_top = 20\<rparr>, heart \<mapsto> \<lparr>p_left = 45, p_top = 60\<rparr>])
     = [False, False]"
    by code_simp
qed simp

section \<open>Where the code misses the spacing and the bounds\<close>

text \<open>
  Claim C1 asks that in every plan whose side fits between the bounds, two adjacent
  labels of a side keep \<open>(heightPrev + heightCurr) / 2 + minGap\<close> between their centers.
  The curved memo does not keep it.
  \<^item> Two left-side markers at \<open>top\<close> 50 and 51, without details: \<open>resolveSide\<close> puts the
    labels at 50 and 62.5, and the final loop then moves the first to 57.5. The centers
    end 5 apart where 12.5 is required, and the two labels, 6.5 tall, overlap.
  \<^item> Three left-side markers at \<open>top\<close> 10, 90 and 91: the forward pass pushes the third
    label past \<open>MAX_BOUND\<close>, the shift up pushes the first past \<open>MIN_BOUND\<close>, the shift
    down undoes it, and the final clamp of \<open>resolveSide\<close> leaves the second and third
    label on the same center 88.75. The plan ends with 82.5 and 83.5.
\<close>

theorem spacing_lost_in_curved_plan:
  "map origTop
      (adjustedPositions (\<lambda>k. k = brain \<or> k = heart) Map.empty
         [brain \<mapsto> \<lparr>p_left = 40, p_top = 50\<rparr>, heart \<mapsto> \<lparr>p_left = 40, p_top = 51\<rparr>])
     = [50, 51]
   \<and> map isRightSide
      (adjustedPositions (\<lambda>k. k = brain \<or> k = heart) Map.empty
         [brain \<mapsto> \<lparr>p_left = 40, p_top = 50\<rparr>, heart \<mapsto> \<lparr>p_left = 40, p_top = 51\<rparr>])
     = [False, False]
   \<and> map labelHeight
      (adjustedPositions (\<lambda>k. k = brain \<or> k = heart) Map.empty
         [brain \<mapsto> \<lparr>p_left = 40, p_top = 50\<rparr>, heart \<mapsto> \<lparr>p_left = 40, p_top = 51\<rparr>])
     = [6.5, 6.5]
   \<and> map centerY
      (resolveSide False (resolveSide True
         (initialPositions (\<lambda>k. k = brain \<or> k = heart) Map.empty
            [brain \<mapsto> \<lparr>p_left = 40, p_top = 50\<rparr>, heart \<mapsto> \<lparr>p_left = 40, p_top = 51\<rparr>]
            organKeys)))
     = [50, 62.5]
   \<and> map centerY
      (adjustedPositions (\<lambda>k. k = brain \<or> k = heart) Map.empty
         [brain \<mapsto> \<lparr>p_left = 40, p_top = 50\<rparr>, heart \<mapsto> \<lparr>p_left = 40, p_top = 51\<rparr>])
     = [57.5, 62.5]
   \<and> \<not> (62.5 - 57.5 \<ge> (6.5 + 6.5) / 2 + MIN_VERTICAL_SPACING)
   \<and> map centerY
      (resolveSide False (resolveSide True
         (initialPositions (\<lambda>k. k = brain \<or> k = heart \<or> k = lungs) Map.empty
            [brain \<mapsto> \<lparr>p_left = 40, p_top = 10\<rparr>, heart \<mapsto> \<lparr>p_left = 40, p_top = 90\<rparr>,
             lungs \<mapsto> \<lparr>p_left = 40, p_top = 91\<rparr>]
            organKeys)))
     = [11.25, 88.75, 88.75]
   \<and> map centerY
      (adjustedPositions (\<lambda>k. k = brain \<or> k = heart \<or> k = lungs) Map.empty
         [brain \<mapsto> \<lparr>p_left = 40, p_top = 10\<rparr>, heart \<mapsto> \<lparr>p_left = 40, p_top = 90\<rparr>,
          lungs \<mapsto> \<lparr>p_left = 40, p_top = 91\<rparr>])
     = [17.5, 82.5, 83.5]"
proof (intro conjI)
  show "map origTop
      (adjustedPositions (\<lambda>k. k = brain \<or> k = heart) Map.empty
         [brain \<mapsto> \<lparr>p_left = 40, p_top = 50\<rparr>, heart \<mapsto> \<lparr>p_left = 40, p_top = 51\<rparr>])
     = [50, 51]"
    by code_simp
  show "map isRightSide
      (adjustedPositions (\<lambda>k. k = brain \<or> k = heart) Map.empty
         [brain \<mapsto> \<lparr>p_left = 40, p_top = 50\<rparr>, heart \<mapsto> \<lparr>p_left = 40, p_top = 51\<rparr>])
     = [False, False]"
    by code_simp
  show "map labelHeight
      (adjustedPositions (\<lambda>k. k = brain \<or> k = heart) Map.empty
         [brain \<mapsto> \<lparr>p_left = 40, p_top = 50\<rparr>, heart \<mapsto> \<lparr>p_left = 40, p_top = 51\<rparr>])
     = [6.5, 6.5]"
    by code_simp
  show "map centerY
      (resolveSide False (resolveSide True
         (initialPositions (\<lambda>k. k = brain \<or> k = heart) Map.empty
            [brain \<mapsto> \<lparr>p_left = 40, p_top = 50\<rparr>, heart \<mapsto> \<lparr>p_left = 40, p_top = 51\<rparr>]
            organKeys)))
     = [50, 62.5]"
    by code_simp
  show "map centerY
      (adjustedPositions (\<lambda>k. k = brain \<or> k = heart) Map.empty
         [brain \<mapsto> \<lparr>p_left = 40, p_top = 50\<rparr>, heart \<mapsto> \<lparr>p_left = 40, p_top = 51\<rparr>])
     = [57.5, 62.5]"
    by code_simp
  show "\<not> (62.5 - 57.5 \<ge> (6.5 + 6.5) / 2 + MIN_VERTICAL_SPACING)"
    by (simp add: MIN_VERTICAL_SPACING_def)
  show "map centerY
      (resolveSide False (resolveSide True
         (initialPositions (\<lambda>k. k = brain \<or> k = heart \<or> k = lungs) Map.empty
            [brain \<mapsto> \<lparr>p_left = 40, p_top = 10\<rparr>, heart \<mapsto> \<lparr>p_left = 40, p_top = 90\<rparr>,
             lungs \<mapsto> \<lparr>p_left = 40, p_top = 91\<rparr>]
            organKeys)))
     = [11.25, 88.75, 88.75]"
    by code_simp
  show "map centerY
      (adjustedPositions (\<lambda>k. k = brain \<or> k = heart \<or> k = lungs) Map.empty
         [brain \<mapsto> \<lparr>p_left = 40, p_top = 10\<rparr>, heart \<mapsto> \<lparr>p_left = 40, p_top = 90\<rparr>,
          lungs \<mapsto> \<lparr>p_left = 40, p_top = 91\<rparr>])
     = [17.5, 82.5, 83.5]"
    by code_simp
qed

text \<open>
  Claim C3 asks that every center lies within \<open>[minBound + height / 2, maxBound - height / 2]\<close>,
  which for the grid version is \<open>[minCenter, maxCenter] = [6.5, 93.5]\<close>. Two left-side
  markers at \<open>top\<close> 90 and 92 need 18 of the 94 units between the paddings. The forward
  pass gives the centers 90 and 101. \<open>pullUp\<close> finds no slack between the second center
  and the first, then moves the first up by the whole overflow 7.5 and stops: the second
  center stays at 101, beyond \<open>maxCenter\<close> and beyond \<open>100 - bottomPadding = 97\<close>.
\<close>

theorem grid_center_beyond_maxCenter:
  "map (\<lambda>a. p_top (organPosition a))
      (gridPositions (\<lambda>k. k = brain \<or> k = heart)
         [brain \<mapsto> \<lparr>p_left = 40, p_top = 90\<rparr>, heart \<mapsto> \<lparr>p_left = 40, p_top = 92\<rparr>] None)
     = [90, 92]
   \<and> placeCenters []
        [\<lparr>g_organKey = brain, g_position = \<lparr>p_left = 40, p_top = 90\<rparr>\<rparr>,
         \<lparr>g_organKey = heart, g_position = \<lparr>p_left = 40, p_top = 92\<rparr>\<rparr>]
     = [90, 101]
   \<and> map rowY
      (gridPositions (\<lambda>k. k = brain \<or> k = heart)
         [brain \<mapsto> \<lparr>p_left = 40, p_top = 90\<rparr>, heart \<mapsto> \<lparr>p_left = 40, p_top = 92\<rparr>] None)
     = [82.5, 101]
   \<and> maxCenter = 93.5
   \<and> \<not> (101 \<le> 100 - bottomPadding)
   \<and> 2 * cardHeight + minVerticalGap \<le> (100 - bottomPadding) - topPadding"
proof (intro conjI)
  show "map (\<lambda>a. p_top (organPosition a))
      (gridPositions (\<lambda>k. k = brain \<or> k = heart)
         [brain \<mapsto> \<lparr>p_left = 40, p_top = 90\<rparr>, heart \<mapsto> \<lparr>p_left = 40, p_top = 92\<rparr>] None)
     = [90, 92]"
    by code_simp
  show "placeCenters []
        [\<lparr>g_organKey = brain, g_position = \<lparr>p_left = 40, p_top = 90\<rparr>\<rparr>,
         \<lparr>g_organKey = heart, g_position = \<lparr>p_left = 40, p_top = 92\<rparr>\<rparr>]
     = [90, 101]"
    by code_simp
  show "map rowY
      (gridPositions (\<lambda>k. k = brain \<or> k = heart)
         [brain \<mapsto> \<lparr>p_left = 40, p_top = 90\<rparr>, heart \<mapsto> \<lparr>p_left = 40, p_top = 92\<rparr>] None)
     = [82.5, 101]"
    by code_simp
qed (simp_all add: grid_consts)


end
